theory Spec2Isabelle
  imports Main "HOL-Library.Word"
begin

unbundle bit_operations_syntax

section \<open>Bootstrap input: the data model of package generate\<close>

text \<open>
  The model follows \<^verbatim>\<open>pkg/config/config.go\<close> (package \<^verbatim>\<open>generate\<close>).
  Go strings are byte strings, modelled as \<^typ>\<open>string\<close>; a \<^verbatim>\<open>[]byte\<close> is a list of
  8-bit words.
\<close>

type_synonym byte = "8 word"

text \<open>
  A Go \<^verbatim>\<open>error\<close> value: a plain error with its text, or the aggregate of package
  \<^verbatim>\<open>go-multierror\<close> with its list of underlying errors.
\<close>

datatype go_error = Error string | MultiError "go_error list"

text \<open>
  How a call ends: it returns a value, it returns an error to its caller, or it panics
  (the process aborts unless some caller recovers). A call that may also never return has
  the type \<open>'a result option\<close>, with \<^const>\<open>None\<close> for not returning.
\<close>

datatype 'a result = Ok 'a | Err go_error | Panic string

fun panicked :: "'a result \<Rightarrow> bool" where
  "panicked (Panic m) = True"
| "panicked (Ok v) = False"
| "panicked (Err e) = False"

text \<open>The four default networks, as the constants of the source.\<close>

definition DefaultIPv4PodNet :: string where
  "DefaultIPv4PodNet = ''10.244.0.0/16''"

definition DefaultIPv4ServiceNet :: string where
  "DefaultIPv4ServiceNet = ''10.96.0.0/12''"

definition DefaultIPv6PodNet :: string where
  "DefaultIPv6PodNet = ''fc00:db8:10::/56''"

definition DefaultIPv6ServiceNet :: string where
  "DefaultIPv6ServiceNet = ''fc00:db8:20::/112''"

record PEMEncodedCertificateAndKey =
  Crt :: "byte list"
  Key :: "byte list"

record Certs =
  Admin :: PEMEncodedCertificateAndKey
  Etcd :: PEMEncodedCertificateAndKey
  K8s :: PEMEncodedCertificateAndKey
  OS :: PEMEncodedCertificateAndKey

record KubeadmTokens =
  BootstrapToken :: string
  AESCBCEncryptionSecret :: string
  CertificateKey :: string

record TrustdInfo =
  Token :: string

record Input =
  Certs :: Certs
  ControlPlaneEndpoint :: string
  MasterIPs :: "string list"
  AdditionalSubjectAltNames :: "string list"
  ClusterName :: string
  ServiceDomain :: string
  PodNet :: "string list"
  ServiceNet :: "string list"
  KubernetesVersion :: string
  KubeadmTokens :: KubeadmTokens
  TrustdInfo :: TrustdInfo
  ExternalEtcd :: bool

subsection \<open>Derived accessors\<close>

text \<open>
  The accessors are methods on \<^verbatim>\<open>*Input\<close>; the receiver may be the nil pointer, so it
  is an \<^typ>\<open>Input option\<close>.
\<close>

text \<open>\<^verbatim>\<open>strings.Join(elems, sep)\<close>.\<close>

fun strings_Join :: "string list \<Rightarrow> string \<Rightarrow> string" where
  "strings_Join [] sep = []"
| "strings_Join [x] sep = x"
| "strings_Join (x # y # ys) sep = x @ sep @ strings_Join (y # ys) sep"

text \<open>
  \<^verbatim>\<open>net.JoinHostPort(host, port)\<close>: a host holding a colon is taken for an IPv6 literal
  and is put in brackets.
\<close>

definition net_JoinHostPort :: "string \<Rightarrow> string \<Rightarrow> string" where
  "net_JoinHostPort host port =
     (if CHR '':'' \<in> set host then ''['' @ host @ '']:'' @ port
      else host @ '':'' @ port)"

definition Endpoints :: "Input option \<Rightarrow> string result" where
  "Endpoints i =
     (case i of
        None \<Rightarrow> Panic ''cannot Endpoints without any Master IPs''
      | Some inp \<Rightarrow>
          if length (MasterIPs inp) < 1
          then Panic ''cannot Endpoints without any Master IPs''
          else Ok (strings_Join (MasterIPs inp) '',''))"

text \<open>
  \<^verbatim>\<open>tnet.FormatAddress\<close> belongs to another package, \<^verbatim>\<open>pkg/net\<close>; the accessors
  that call it take it as the parameter \<open>FormatAddress\<close>.
\<close>

definition GetAPIServerEndpoint ::
  "(string \<Rightarrow> string) \<Rightarrow> Input option \<Rightarrow> string \<Rightarrow> string result" where
  "GetAPIServerEndpoint FormatAddress i port =
     (case i of
        None \<Rightarrow> Panic ''cannot GetControlPlaneEndpoint without any Master IPs''
      | Some inp \<Rightarrow>
          if length (MasterIPs inp) < 1
          then Panic ''cannot GetControlPlaneEndpoint without any Master IPs''
          else let refMaster = (0::nat) in
            if port = [] then Ok (FormatAddress (MasterIPs inp ! refMaster))
            else Ok (net_JoinHostPort (MasterIPs inp ! refMaster) port))"

definition GetControlPlaneEndpoint ::
  "(string \<Rightarrow> string) \<Rightarrow> Input option \<Rightarrow> string result" where
  "GetControlPlaneEndpoint FormatAddress i =
     (case i of
        None \<Rightarrow> Panic ''cannot GetControlPlaneEndpoint without any Master IPs''
      | Some inp \<Rightarrow>
          if length (MasterIPs inp) < 1 \<and> ControlPlaneEndpoint inp = []
          then Panic ''cannot GetControlPlaneEndpoint without any Master IPs''
          else if ControlPlaneEndpoint inp \<noteq> [] then Ok (ControlPlaneEndpoint inp)
          else Ok (FormatAddress (MasterIPs inp ! 0)))"

definition GetAPIServerSANs :: "Input \<Rightarrow> string list" where
  "GetAPIServerSANs inp =
     [''127.0.0.1'', ''::1''] @ MasterIPs inp @ AdditionalSubjectAltNames inp"

text \<open>The zero value \<^verbatim>\<open>Input{}\<close>: every field empty.\<close>

definition Input_zero :: Input where
  "Input_zero =
     \<lparr>Certs =
        \<lparr>Admin = \<lparr>Crt = [], Key = []\<rparr>, Etcd = \<lparr>Crt = [], Key = []\<rparr>,
         K8s = \<lparr>Crt = [], Key = []\<rparr>, OS = \<lparr>Crt = [], Key = []\<rparr>\<rparr>,
      ControlPlaneEndpoint = [], MasterIPs = [], AdditionalSubjectAltNames = [],
      ClusterName = [], ServiceDomain = [], PodNet = [], ServiceNet = [],
      KubernetesVersion = [],
      KubeadmTokens = \<lparr>BootstrapToken = [], AESCBCEncryptionSecret = [], CertificateKey = []\<rparr>,
      TrustdInfo = \<lparr>Token = []\<rparr>, ExternalEtcd = False\<rparr>"

subsection \<open>Secret generation\<close>

text \<open>
  \<^verbatim>\<open>randBytes\<close> wraps the system entropy source \<^verbatim>\<open>rand.Reader\<close> in a buffered reader
  of its own and calls \<^verbatim>\<open>ReadByte\<close> on it. A reader is modelled by what its successive
  calls of \<^verbatim>\<open>ReadByte\<close> return: the call number \<open>p\<close> (from 0) gives a byte or an error.
\<close>

type_synonym reader = "nat \<Rightarrow> go_error + byte"

definition validBootstrapTokenChars :: string where
  "validBootstrapTokenChars = ''0123456789abcdefghijklmnopqrstuvwxyz''"

definition maxByteValue :: byte where
  "maxByteValue = 252"

text \<open>
  The inner loop of \<^verbatim>\<open>randBytes\<close>: read bytes until one is below \<^const>\<open>maxByteValue\<close>.
  It returns the byte with the number of the next read, or the reader's error; on a reader
  that never delivers such a byte and never fails it does not return.
\<close>

partial_function (option) readByte_loop :: "reader \<Rightarrow> nat \<Rightarrow> (go_error + byte \<times> nat) option" where
  "readByte_loop reader p =
     (case reader p of
        Inl err \<Rightarrow> Some (Inl err)
      | Inr b \<Rightarrow> if b < maxByteValue then Some (Inr (b, Suc p)) else readByte_loop reader (Suc p))"

text \<open>
  The outer loop \<^verbatim>\<open>for i := range token\<close>: slot \<open>i\<close> of the token receives the
  character \<^verbatim>\<open>validBootstrapTokenChars[int(b) % len(validBootstrapTokenChars)]\<close>. An
  error of the reader ends the call with that error and no token.
\<close>

function randBytes_loop :: "nat \<Rightarrow> string \<Rightarrow> reader \<Rightarrow> nat \<Rightarrow> string result option" where
  "randBytes_loop i token reader p =
     (if i < length token then
        (case readByte_loop reader p of
           None \<Rightarrow> None
         | Some (Inl err) \<Rightarrow> Some (Err err)
         | Some (Inr (b, q)) \<Rightarrow>
             randBytes_loop (Suc i)
               (token[i := validBootstrapTokenChars ! (unat b mod length validBootstrapTokenChars)])
               reader q)
      else Some (Ok token))"
  by pat_completeness auto
termination
  by (relation "measure (\<lambda>(i, token, reader, p). length token - i)") auto

declare randBytes_loop.simps [simp del]

declare readByte_loop.simps [code]

text \<open>Sequencing of calls: the first error, panic or divergence ends the caller too.\<close>

definition and_then :: "'a result option \<Rightarrow> ('a \<Rightarrow> 'b result option) \<Rightarrow> 'b result option" where
  "and_then r f =
     (case r of
        None \<Rightarrow> None
      | Some (Ok v) \<Rightarrow> f v
      | Some (Err e) \<Rightarrow> Some (Err e)
      | Some (Panic m) \<Rightarrow> Some (Panic m))"

text \<open>
  Allocation of a byte slice. The Go runtime refuses a negative length and a length above
  its limit \<^verbatim>\<open>maxAlloc\<close> (a constant of the platform, \<open>2 ^ 48\<close> on linux/amd64) with the
  panic \<^verbatim>\<open>makeslice: len out of range\<close>, and it ends the process with a fatal error
  when the heap cannot serve the request. Both are aborts and are listed under
  \<^const>\<open>Panic\<close>. The limit and the state of the heap are parameters.
\<close>

record go_runtime =
  maxAlloc :: int
  out_of_memory :: "int \<Rightarrow> bool"

definition make_bytes :: "go_runtime \<Rightarrow> int \<Rightarrow> string result" where
  "make_bytes rt len =
     (if len < 0 \<or> maxAlloc rt < len then Panic ''makeslice: len out of range''
      else if out_of_memory rt len then Panic ''fatal error: runtime: out of memory''
      else Ok (replicate (nat len) (CHR 0x00)))"

text \<open>
  \<^verbatim>\<open>bufio.NewReaderSize(rand.Reader, length*2)\<close> allocates a buffer of the size asked
  for, and of 16 bytes when that is less. The product is one of the type \<^verbatim>\<open>int\<close>, 64
  bits wide on the platforms of this system: it wraps around.
\<close>

definition bufio_size :: "int \<Rightarrow> int" where
  "bufio_size len = max 16 (signed_take_bit 63 (len * 2))"

text \<open>
  \<^verbatim>\<open>randBytes\<close> allocates the token, \<open>length\<close> zero bytes, then the buffered reader,
  and runs the loop.
\<close>

definition randBytes :: "go_runtime \<Rightarrow> int \<Rightarrow> reader \<Rightarrow> string result option" where
  "randBytes rt len reader =
     and_then (Some (make_bytes rt len)) (\<lambda>token.
     and_then (Some (make_bytes rt (bufio_size len))) (\<lambda>buf.
       randBytes_loop 0 token reader 0))"

text \<open>
  \<^verbatim>\<open>genToken\<close> calls \<^verbatim>\<open>randBytes\<close> twice; each call opens a reader of its own, here
  \<open>reader1\<close> and \<open>reader2\<close>.
\<close>

definition genToken :: "go_runtime \<Rightarrow> int \<Rightarrow> int \<Rightarrow> reader \<Rightarrow> reader \<Rightarrow> string result option" where
  "genToken rt lenFirst lenSecond reader1 reader2 =
     and_then (randBytes rt lenFirst reader1) (\<lambda>first.
     and_then (randBytes rt lenSecond reader2) (\<lambda>second.
       Some (Ok (first @ ''.'' @ second))))"

text \<open>\<^verbatim>\<open>hex.EncodeToString\<close>: two lowercase hexadecimal digits for each byte.\<close>

definition hextable :: string where
  "hextable = ''0123456789abcdef''"

fun hex_EncodeToString :: "byte list \<Rightarrow> string" where
  "hex_EncodeToString [] = []"
| "hex_EncodeToString (v # vs) =
     hextable ! unat (drop_bit 4 v) # hextable ! unat (v AND 0x0f) # hex_EncodeToString vs"

text \<open>
  \<^verbatim>\<open>sha256.Sum256\<close> returns an array \<^verbatim>\<open>[32]byte\<close>, modelled as its index function; the
  slice \<^verbatim>\<open>hashedKey[:]\<close> lists its 32 elements. The digest function itself belongs to
  the standard library and is the parameter \<open>Sum256\<close>.
\<close>

definition slice32 :: "(nat \<Rightarrow> byte) \<Rightarrow> byte list" where
  "slice32 arr = map arr [0..<32]"

definition bytes_of_string :: "string \<Rightarrow> byte list" where
  "bytes_of_string s = map of_char s"

definition generateCertificateKey ::
  "go_runtime \<Rightarrow> (byte list \<Rightarrow> nat \<Rightarrow> byte) \<Rightarrow> reader \<Rightarrow> string result option" where
  "generateCertificateKey rt Sum256 reader =
     and_then (randBytes rt 32 reader) (\<lambda>key.
       let hashedKey = Sum256 (bytes_of_string key);
           encoded = hex_EncodeToString (slice32 hashedKey)
       in Some (Ok encoded))"

text \<open>
  \<^verbatim>\<open>base64.StdEncoding.EncodeToString\<close>: three bytes give four characters of the
  standard alphabet; a last group of one or two bytes is padded with \<^verbatim>\<open>=\<close>.
\<close>

definition encodeStd :: string where
  "encodeStd = ''ABCDEFGHIJKLMNOPQRSTUVWXYZabcdefghijklmnopqrstuvwxyz0123456789+/''"

definition sextet :: "nat \<Rightarrow> nat \<Rightarrow> char" where
  "sextet val shift = encodeStd ! ((val div 2 ^ shift) mod 64)"

fun base64_EncodeToString :: "byte list \<Rightarrow> string" where
  "base64_EncodeToString [] = []"
| "base64_EncodeToString [a] =
     (let val = unat a * 65536
      in [sextet val 18, sextet val 12, CHR ''='', CHR ''=''])"
| "base64_EncodeToString [a, b] =
     (let val = unat a * 65536 + unat b * 256
      in [sextet val 18, sextet val 12, sextet val 6, CHR ''=''])"
| "base64_EncodeToString (a # b # c # src) =
     (let val = unat a * 65536 + unat b * 256 + unat c
      in sextet val 18 # sextet val 12 # sextet val 6 # sextet val 0 #
         base64_EncodeToString src)"

text \<open>
  \<^verbatim>\<open>rand.Read(b)\<close> fills the whole of \<open>b\<close> from the entropy source or returns the
  error that stopped it.
\<close>

fun rand_Read :: "reader \<Rightarrow> nat \<Rightarrow> nat \<Rightarrow> byte list result" where
  "rand_Read reader p 0 = Ok []"
| "rand_Read reader p (Suc n) =
     (case reader p of
        Inl err \<Rightarrow> Err err
      | Inr b \<Rightarrow>
          (case rand_Read reader (Suc p) n of
             Ok bs \<Rightarrow> Ok (b # bs)
           | Err err \<Rightarrow> Err err
           | Panic m \<Rightarrow> Panic m))"

text \<open>\<^verbatim>\<open>cis.CreateEncryptionToken\<close> (package \<^verbatim>\<open>cis\<close>).\<close>

definition CreateEncryptionToken :: "go_runtime \<Rightarrow> reader \<Rightarrow> string result" where
  "CreateEncryptionToken rt reader =
     (case make_bytes rt 32 of
        Panic m \<Rightarrow> Panic m
      | Err err \<Rightarrow> Err err
      | Ok zeroes \<Rightarrow>
          (case rand_Read reader 0 32 of
             Ok encryptionKey \<Rightarrow> Ok (base64_EncodeToString encryptionKey)
           | Err err \<Rightarrow> Err err
           | Panic m \<Rightarrow> Panic m))"

subsection \<open>Address family and construction of the input\<close>

text \<open>
  A \<^verbatim>\<open>net.IP\<close> is a byte slice of length 4 or 16. \<^verbatim>\<open>IP.To4\<close> gives the 4-byte form
  of an IPv4 address, also when it is held in the 16-byte IPv4-mapped form, and nil for
  any other address.
\<close>

type_synonym IP = "byte list"

definition isZeros :: "IP \<Rightarrow> bool" where
  "isZeros p = list_all (\<lambda>b. b = 0) p"

definition To4 :: "IP \<Rightarrow> IP option" where
  "To4 ip =
     (if length ip = 4 then Some ip
      else if length ip = 16 \<and> isZeros (take 10 ip) \<and> ip ! 10 = 0xff \<and> ip ! 11 = 0xff
      then Some (drop 12 ip)
      else None)"

text \<open>
  \<^verbatim>\<open>net.ParseIP\<close> is the standard library's parser: nil for a string that is no IP
  address, the 16-byte form of the address otherwise. It is the parameter \<open>ParseIP\<close>.
\<close>

fun isIPv6 :: "(string \<Rightarrow> IP option) \<Rightarrow> string list \<Rightarrow> bool" where
  "isIPv6 ParseIP [] = False"
| "isIPv6 ParseIP (a # addrs) =
     (case ParseIP a of
        Some ip \<Rightarrow> if To4 ip = None then True else isIPv6 ParseIP addrs
      | None \<Rightarrow> isIPv6 ParseIP addrs)"

text \<open>
  What \<^verbatim>\<open>NewInput\<close> takes from its surroundings: the runtime, the IP parser, the
  digest, the readers it opens on the entropy source (numbered in the order of opening), and the
  certificate steps. The latter (the three certificate authorities and the admin
  identity) run in package \<^verbatim>\<open>x509\<close> and the standard library; \<open>x509_Certs\<close> gives
  their joint outcome from the loopback address that the admin request carries.
\<close>

record externals =
  go_runtime :: go_runtime
  net_ParseIP :: "string \<Rightarrow> IP option"
  sha256_Sum256 :: "byte list \<Rightarrow> nat \<Rightarrow> byte"
  rand_Reader :: "nat \<Rightarrow> reader"
  x509_Certs :: "string \<Rightarrow> Certs result"

text \<open>The first block of \<^verbatim>\<open>NewInput\<close>: loopback address, pod network, service network.\<close>

definition NewInput_defaults :: "(string \<Rightarrow> IP option) \<Rightarrow> string list \<Rightarrow> string \<times> string \<times> string" where
  "NewInput_defaults ParseIP masterIPs =
     (if isIPv6 ParseIP masterIPs
      then (''::1'', DefaultIPv6PodNet, DefaultIPv6ServiceNet)
      else (''127.0.0.1'', DefaultIPv4PodNet, DefaultIPv4ServiceNet))"

definition NewInput :: "externals \<Rightarrow> string \<Rightarrow> string list \<Rightarrow> string \<Rightarrow> Input result option" where
  "NewInput ext clustername masterIPs kubernetesVersion =
     (case NewInput_defaults (net_ParseIP ext) masterIPs of
        (loopbackIP, podNet, serviceNet) \<Rightarrow>
     and_then (genToken (go_runtime ext) 6 16 (rand_Reader ext 0) (rand_Reader ext 1)) (\<lambda>kubeadmBootstrapToken.
     and_then (generateCertificateKey (go_runtime ext) (sha256_Sum256 ext) (rand_Reader ext 2)) (\<lambda>kubeadmCertificateKey.
     and_then (Some (CreateEncryptionToken (go_runtime ext) (rand_Reader ext 3))) (\<lambda>aescbcEncryptionSecret.
     and_then (genToken (go_runtime ext) 6 16 (rand_Reader ext 4) (rand_Reader ext 5)) (\<lambda>trustdToken.
     and_then (Some (x509_Certs ext loopbackIP)) (\<lambda>certs.
       Some (Ok \<lparr>Certs = certs,
                 ControlPlaneEndpoint = [],
                 MasterIPs = masterIPs,
                 AdditionalSubjectAltNames = [],
                 ClusterName = clustername,
                 ServiceDomain = ''cluster.local'',
                 PodNet = [podNet],
                 ServiceNet = [serviceNet],
                 KubernetesVersion = kubernetesVersion,
                 KubeadmTokens =
                   \<lparr>BootstrapToken = kubeadmBootstrapToken,
                    AESCBCEncryptionSecret = aescbcEncryptionSecret,
                    CertificateKey = kubeadmCertificateKey\<rparr>,
                 TrustdInfo = \<lparr>Token = trustdToken\<rparr>,
                 ExternalEtcd = False\<rparr>)))))))"

section \<open>Remote identity generator (package gen)\<close>

text \<open>
  \<^verbatim>\<open>basic.NewTokenCredentials\<close>, \<^verbatim>\<open>basic.NewConnection\<close> and the generated security
  client belong to other packages. Credentials and client are modelled as wrappers
  of what they are made from; the dialer is the parameter \<open>NewConnection\<close>. Its first
  argument is the number of dials made before, since the network may answer two dials of
  one address differently.
\<close>

datatype TokenCredentials = TokenCredentials string

datatype 'conn SecurityClient = SecurityClient 'conn

record 'conn RemoteGenerator =
  client :: "'conn SecurityClient option"

type_synonym 'conn dialer = "nat \<Rightarrow> string \<Rightarrow> int \<Rightarrow> TokenCredentials \<Rightarrow> go_error + 'conn"

text \<open>
  \<^verbatim>\<open>multierror.Append\<close> on a \<^verbatim>\<open>*multierror.Error\<close> that may be nil: a plain error is
  added as one entry, the entries of an aggregate are added one by one.
  \<^verbatim>\<open>ErrorOrNil\<close> is nil for a nil or empty aggregate.
\<close>

definition multierror_Append :: "go_error list option \<Rightarrow> go_error \<Rightarrow> go_error list option" where
  "multierror_Append multiError err =
     (let errs = (case multiError of None \<Rightarrow> [] | Some es \<Rightarrow> es)
      in case err of
           MultiError es \<Rightarrow> Some (errs @ es)
         | Error msg \<Rightarrow> Some (errs @ [err]))"

definition ErrorOrNil :: "go_error list option \<Rightarrow> go_error option" where
  "ErrorOrNil multiError =
     (case multiError of
        None \<Rightarrow> None
      | Some es \<Rightarrow> if length es = 0 then None else Some (MultiError es))"

text \<open>
  The loop over the endpoints. Its state is the index \<open>i\<close>, the aggregate
  \<open>multiError\<close> and the addresses dialled so far, in the order of dialling (the effect
  of the calls of \<^verbatim>\<open>basic.NewConnection\<close>). It ends with the connection of the first
  successful dial, or with none after the last endpoint.
\<close>

function NewRemoteGenerator_loop ::
  "'conn dialer \<Rightarrow> TokenCredentials \<Rightarrow> string list \<Rightarrow> int \<Rightarrow> nat \<Rightarrow> go_error list option \<Rightarrow>
     string list \<Rightarrow> 'conn option \<times> go_error list option \<times> string list" where
  "NewRemoteGenerator_loop NewConnection creds endpoints port i multiError dialed =
     (if i < length endpoints then
        (case NewConnection (length dialed) (endpoints ! i) port creds of
           Inl err \<Rightarrow>
             NewRemoteGenerator_loop NewConnection creds endpoints port (Suc i)
               (multierror_Append multiError err) (dialed @ [endpoints ! i])
         | Inr conn \<Rightarrow> (Some conn, multiError, dialed @ [endpoints ! i]))
      else (None, multiError, dialed))"
  by pat_completeness auto
termination
  by (relation "measure (\<lambda>(NewConnection, creds, endpoints, port, i, multiError, dialed).
        length endpoints - i)") auto

declare NewRemoteGenerator_loop.simps [simp del]

text \<open>
  \<^verbatim>\<open>NewRemoteGenerator\<close> returns the pair \<open>(g, err)\<close> of the source, each possibly
  nil, together with the addresses it dialled.
\<close>

definition NewRemoteGenerator ::
  "'conn dialer \<Rightarrow> string \<Rightarrow> string list \<Rightarrow> int \<Rightarrow>
     ('conn RemoteGenerator option \<times> go_error option) \<times> string list" where
  "NewRemoteGenerator NewConnection token endpoints port =
     (if length endpoints = 0
      then ((None, Some (Error ''at least one root of trust endpoint is required'')), [])
      else
        let creds = TokenCredentials token
        in case NewRemoteGenerator_loop NewConnection creds endpoints port 0 None [] of
             (Some conn, multiError, dialed) \<Rightarrow>
               ((Some \<lparr>client = Some (SecurityClient conn)\<rparr>, None), dialed)
           | (None, multiError, dialed) \<Rightarrow> ((None, ErrorOrNil multiError), dialed))"

subsection \<open>Polling for the certificate\<close>











section \<open>Compliance artifacts (package cis)\<close>

text \<open>
  The file system as far as the two writers use it: regular files by path, each with its
  contents and permission bits; whether the process overrides permission bits (it runs as
  the superuser); for a path that holds no file, the error that creating a file there
  meets, if any (a missing or read-only directory, no permission on it); and for any
  path, the error other than "not exist" that \<^verbatim>\<open>os.Stat\<close> meets there, if any (no search
  permission on the directory, say). Files are taken to belong to the user of the process.
\<close>

record regular_file =
  contents :: string
  mode :: "32 word"

record filesys =
  files :: "string \<Rightarrow> regular_file option"
  superuser :: bool
  create_error :: "string \<Rightarrow> go_error option"
  stat_error :: "string \<Rightarrow> go_error option"

definition ErrNotExist :: go_error where
  "ErrNotExist = Error ''no such file or directory''"

definition ErrPermission :: go_error where
  "ErrPermission = Error ''permission denied''"

text \<open>
  \<^verbatim>\<open>os.Stat\<close> returns the error it meets on the way to the path, if any; otherwise it
  reports a missing file with an error that \<^verbatim>\<open>os.IsNotExist\<close> recognises, and no error
  for a file that exists.
\<close>

definition os_Stat :: "filesys \<Rightarrow> string \<Rightarrow> go_error option" where
  "os_Stat fs name =
     (case stat_error fs name of
        Some err \<Rightarrow> Some err
      | None \<Rightarrow> (case files fs name of None \<Rightarrow> Some ErrNotExist | Some f \<Rightarrow> None))"

definition os_IsNotExist :: "go_error option \<Rightarrow> bool" where
  "os_IsNotExist err = (err = Some ErrNotExist)"

text \<open>
  \<^verbatim>\<open>ioutil.WriteFile(name, data, perm)\<close> opens with create and truncate: an existing
  file keeps its permission bits, must be writable by the process and gets the new
  contents; a missing file is created with \<open>perm\<close>, or the call returns the error that
  creating it meets.
\<close>

definition ioutil_WriteFile :: "filesys \<Rightarrow> string \<Rightarrow> string \<Rightarrow> 32 word \<Rightarrow> go_error option \<times> filesys" where
  "ioutil_WriteFile fs name data perm =
     (case files fs name of
        Some f \<Rightarrow>
          if superuser fs \<or> mode f AND 0x80 \<noteq> 0
          then (None, fs\<lparr>files := (files fs)(name \<mapsto> f\<lparr>contents := data\<rparr>)\<rparr>)
          else (Some ErrPermission, fs)
      | None \<Rightarrow>
          (case create_error fs name of
             None \<Rightarrow> (None, fs\<lparr>files := (files fs)(name \<mapsto> \<lparr>contents = data, mode = perm\<rparr>)\<rparr>)
           | Some err \<Rightarrow> (Some err, fs)))"

definition auditPolicy :: string where
  "auditPolicy =
     ''apiVersion: audit.k8s.io/v1beta1\<newline>kind: Policy\<newline>rules:\<newline>- level: Metadata\<newline>''"

text \<open>
  The encryption configuration is a template with one action, the field
  \<^verbatim>\<open>.AESCBCEncryptionSecret\<close>; executing it writes the text around the action and the
  value of the field in its place. Parsing this constant template and executing it into a
  buffer do not fail, so the two error returns that follow them in the source have no
  branch here.
\<close>

datatype template_node = Text string | Field_AESCBCEncryptionSecret

definition encryptionConfig :: "template_node list" where
  "encryptionConfig =
     [Text ''kind: EncryptionConfig\<newline>apiVersion: v1\<newline>resources:\<newline>- resources:\<newline>  - secrets\<newline>  providers:\<newline>  - aescbc:\<newline>      keys:\<newline>      - name: key1\<newline>        secret: '',
      Field_AESCBCEncryptionSecret,
      Text ''\<newline>  - identity: {}\<newline>'']"

fun template_Execute :: "template_node list \<Rightarrow> string \<Rightarrow> string" where
  "template_Execute [] secret = []"
| "template_Execute (Text t # ns) secret = t @ template_Execute ns secret"
| "template_Execute (Field_AESCBCEncryptionSecret # ns) secret = secret @ template_Execute ns secret"

text \<open>
  The two paths are constants of another package, \<^verbatim>\<open>constants\<close>; the writers take
  them as parameters.
\<close>

definition WriteAuditPolicyToDisk :: "string \<Rightarrow> filesys \<Rightarrow> go_error option \<times> filesys" where
  "WriteAuditPolicyToDisk AuditPolicyPath fs =
     ioutil_WriteFile fs AuditPolicyPath auditPolicy 0x100"

definition WriteEncryptionConfigToDisk :: "string \<Rightarrow> string \<Rightarrow> filesys \<Rightarrow> go_error option \<times> filesys" where
  "WriteEncryptionConfigToDisk EncryptionConfigPath aescbcEncryptionSecret fs =
     (if os_IsNotExist (os_Stat fs EncryptionConfigPath) then
        (let buf = template_Execute encryptionConfig aescbcEncryptionSecret
         in case ioutil_WriteFile fs EncryptionConfigPath buf 0x100 of
              (Some err, fs') \<Rightarrow> (Some err, fs')
            | (None, fs') \<Rightarrow> (None, fs'))
      else (None, fs))"

definition EnforceCommonMasterRequirements ::
  "string \<Rightarrow> string \<Rightarrow> string \<Rightarrow> filesys \<Rightarrow> go_error option \<times> filesys" where
  "EnforceCommonMasterRequirements AuditPolicyPath EncryptionConfigPath aescbcEncryptionSecret fs =
     (case WriteAuditPolicyToDisk AuditPolicyPath fs of
        (Some err, fs') \<Rightarrow> (Some err, fs')
      | (None, fs') \<Rightarrow>
          (case WriteEncryptionConfigToDisk EncryptionConfigPath aescbcEncryptionSecret fs' of
             (Some err, fs'') \<Rightarrow> (Some err, fs'')
           | (None, fs'') \<Rightarrow> (None, fs'')))"

text \<open>
  Two notions for stating what the loop does: an error that is not an aggregate, and the
  aggregate after a list of such errors has been appended one by one.
\<close>

fun plain_error :: "go_error \<Rightarrow> bool" where
  "plain_error (Error msg) = True"
| "plain_error (MultiError es) = False"

definition append_all :: "go_error list option \<Rightarrow> go_error list \<Rightarrow> go_error list option" where
  "append_all multiError errs =
     (if errs = [] then multiError
      else Some ((case multiError of None \<Rightarrow> [] | Some es \<Rightarrow> es) @ errs))"





text \<open>
  Notions for stating what \<^verbatim>\<open>randBytes\<close> computes: the character a byte is mapped to,
  the bytes of a list that the sampling accepts, a reader that delivers a given list of
  bytes from read \<open>p\<close> on, and the reader that delivers a list and then fails.
\<close>

definition tokenChar :: "byte \<Rightarrow> char" where
  "tokenChar b = validBootstrapTokenChars ! (unat b mod length validBootstrapTokenChars)"

definition accepted :: "byte list \<Rightarrow> byte list" where
  "accepted bs = filter (\<lambda>b. b < maxByteValue) bs"

fun delivers :: "reader \<Rightarrow> nat \<Rightarrow> byte list \<Rightarrow> bool" where
  "delivers reader p [] = True"
| "delivers reader p (b # bs) = (reader p = Inr b \<and> delivers reader (Suc p) bs)"

declare delivers.simps [simp del]

definition reader_of :: "byte list \<Rightarrow> reader" where
  "reader_of bs p = (if p < length bs then Inr (bs ! p) else Inl (Error ''EOF''))"

text \<open>
  Example data. \<open>ParseIP_sample\<close> gives the values of \<^verbatim>\<open>net.ParseIP\<close> on the two
  addresses the examples use, an IPv4 address (in the 16-byte IPv4-mapped form) and an
  IPv6 address, and nil elsewhere. \<open>sample_Sum256\<close> stands in for the digest, and every
  reader of \<open>sample_externals\<close> delivers \<open>sample_bytes\<close>. \<open>sample_Input\<close> is what
  \<^verbatim>\<open>NewInput\<close> returns on them.
\<close>

definition ParseIP_sample :: "string \<Rightarrow> IP option" where
  "ParseIP_sample s =
     (if s = ''10.0.0.1'' then Some [0, 0, 0, 0, 0, 0, 0, 0, 0, 0, 0xff, 0xff, 10, 0, 0, 1]
      else if s = ''fc00::1'' then Some [0xfc, 0, 0, 0, 0, 0, 0, 0, 0, 0, 0, 0, 0, 0, 0, 1]
      else None)"

definition sample_bytes :: "byte list" where
  "sample_bytes =
     [0, 255, 35, 36, 253, 71, 251, 10, 11, 165, 77, 202, 252, 37, 48, 187, 29, 109, 19, 44,
      254, 214, 35, 123, 46, 217, 30, 63, 114, 31, 203, 25, 113, 23, 68, 148, 214, 73, 60, 157]"

definition sample_Sum256 :: "byte list \<Rightarrow> nat \<Rightarrow> byte" where
  "sample_Sum256 msg k = of_nat (length msg + 7 * k)"

definition sample_runtime :: go_runtime where
  "sample_runtime = \<lparr>maxAlloc = 2 ^ 48, out_of_memory = (\<lambda>n. False)\<rparr>"

definition sample_externals :: externals where
  "sample_externals =
     \<lparr>go_runtime = sample_runtime,
      net_ParseIP = ParseIP_sample,
      sha256_Sum256 = sample_Sum256,
      rand_Reader = (\<lambda>k. reader_of sample_bytes),
      x509_Certs = (\<lambda>loopbackIP. Ok (Certs Input_zero))\<rparr>"

definition sample_Input :: Input where
  "sample_Input =
     Input_zero
       \<lparr>MasterIPs := [''10.0.0.1''],
        ClusterName := ''talos'',
        ServiceDomain := ''cluster.local'',
        PodNet := [''10.244.0.0/16''],
        ServiceNet := [''10.96.0.0/12''],
        KubernetesVersion := ''1.16.0'',
        KubeadmTokens :=
          \<lparr>BootstrapToken = ''0z0zza.0z0zzabl5m1c7t1j'',
           AESCBCEncryptionSecret = ''AP8jJP1H+woLpU3K/CUwux1tEyz+1iN7LtkeP3Ifyxk='',
           CertificateKey = ''20272e353c434a51585f666d747b828990979ea5acb3bac1c8cfd6dde4ebf2f9''\<rparr>,
        TrustdInfo := \<lparr>Token = ''0z0zza.0z0zzabl5m1c7t1j''\<rparr>\<rparr>"

text \<open>
  An example file system: the audit-policy path holds a file with the contents \<open>old\<close>
  and the permission bits 0400, no other file exists, new files can be created and
  \<^verbatim>\<open>os.Stat\<close> meets no other error.
\<close>

definition fs_with_audit_policy :: "string \<Rightarrow> string \<Rightarrow> bool \<Rightarrow> filesys" where
  "fs_with_audit_policy AuditPolicyPath old su =
     \<lparr>files = [AuditPolicyPath \<mapsto> \<lparr>contents = old, mode = 0x100\<rparr>],
      superuser = su,
      create_error = (\<lambda>name. None),
      stat_error = (\<lambda>name. None)\<rparr>"

section \<open>Properties of the derived accessors\<close>

text \<open>
  Claim C8. With an empty list of master IPs, \<^verbatim>\<open>Endpoints\<close> and
  \<^verbatim>\<open>GetAPIServerEndpoint\<close> panic, and so does \<^verbatim>\<open>GetControlPlaneEndpoint\<close> when no
  control-plane endpoint is set: the call ends in a panic and not in an error returned to
  the caller. With a non-empty list none of the three panics.
\<close>

theorem accessors_abort_iff_no_master:
  "(MasterIPs inp = [] \<longrightarrow>
      Endpoints (Some inp) = Panic ''cannot Endpoints without any Master IPs'' \<and>
      GetAPIServerEndpoint FormatAddress (Some inp) port =
        Panic ''cannot GetControlPlaneEndpoint without any Master IPs'' \<and>
      (ControlPlaneEndpoint inp = [] \<longrightarrow>
         GetControlPlaneEndpoint FormatAddress (Some inp) =
           Panic ''cannot GetControlPlaneEndpoint without any Master IPs'')) \<and>
   (MasterIPs inp \<noteq> [] \<longrightarrow>
      \<not> panicked (Endpoints (Some inp)) \<and>
      \<not> panicked (GetAPIServerEndpoint FormatAddress (Some inp) port) \<and>
      \<not> panicked (GetControlPlaneEndpoint FormatAddress (Some inp)))"
  by (simp add: Endpoints_def GetAPIServerEndpoint_def GetControlPlaneEndpoint_def Let_def)

theorem accessors_abort_witness:
  "Endpoints (Some Input_zero) = Panic ''cannot Endpoints without any Master IPs'' \<and>
   GetAPIServerEndpoint id (Some Input_zero) ''6443'' =
     Panic ''cannot GetControlPlaneEndpoint without any Master IPs'' \<and>
   GetControlPlaneEndpoint id (Some Input_zero) =
     Panic ''cannot GetControlPlaneEndpoint without any Master IPs'' \<and>
   \<not> panicked (Endpoints (Some (Input_zero\<lparr>MasterIPs := [''10.0.0.1'']\<rparr>))) \<and>
   \<not> panicked (GetAPIServerEndpoint id (Some (Input_zero\<lparr>MasterIPs := [''10.0.0.1'']\<rparr>)) ''6443'') \<and>
   \<not> panicked (GetControlPlaneEndpoint id (Some (Input_zero\<lparr>MasterIPs := [''10.0.0.1'']\<rparr>)))"
  using accessors_abort_iff_no_master [of Input_zero id "''6443''"]
    accessors_abort_iff_no_master [of "Input_zero\<lparr>MasterIPs := [''10.0.0.1'']\<rparr>" id "''6443''"]
  by (simp add: Input_zero_def)

text \<open>
  Claim C9. For an input whose list of master IPs is not empty and a port that is not the
  empty string, \<^verbatim>\<open>GetAPIServerEndpoint\<close> returns the host-port join of the first master
  IP \<open>m\<close> with the port, whatever follows \<open>m\<close> in the list: \<open>m\<close>, a colon and the port,
  with \<open>m\<close> in square brackets when it holds a colon itself.
\<close>

theorem GetAPIServerEndpoint_first_master:
  "MasterIPs inp = m # ms \<Longrightarrow> port \<noteq> [] \<Longrightarrow>
     GetAPIServerEndpoint FormatAddress (Some inp) port =
       Ok (if CHR '':'' \<in> set m then ''['' @ m @ '']:'' @ port else m @ '':'' @ port)"
  by (simp add: GetAPIServerEndpoint_def net_JoinHostPort_def)

theorem GetAPIServerEndpoint_first_master_witness:
  "MasterIPs (Input_zero\<lparr>MasterIPs := [''10.0.0.1'', ''10.0.0.2'', ''10.0.0.3'']\<rparr>)
     = ''10.0.0.1'' # [''10.0.0.2'', ''10.0.0.3''] \<and>
   ''6443'' \<noteq> [] \<and>
   GetAPIServerEndpoint id
     (Some (Input_zero\<lparr>MasterIPs := [''10.0.0.1'', ''10.0.0.2'', ''10.0.0.3'']\<rparr>)) ''6443''
     = Ok ''10.0.0.1:6443'' \<and>
   GetAPIServerEndpoint id
     (Some (Input_zero\<lparr>MasterIPs := [''fc00::1'', ''10.0.0.2'']\<rparr>)) ''6443''
     = Ok ''[fc00::1]:6443''"
  using GetAPIServerEndpoint_first_master
    [of "Input_zero\<lparr>MasterIPs := [''10.0.0.1'', ''10.0.0.2'', ''10.0.0.3'']\<rparr>"
        "''10.0.0.1''" "[''10.0.0.2'', ''10.0.0.3'']" "''6443''" id]
    GetAPIServerEndpoint_first_master
    [of "Input_zero\<lparr>MasterIPs := [''fc00::1'', ''10.0.0.2'']\<rparr>"
        "''fc00::1''" "[''10.0.0.2'']" "''6443''" id]
  by simp

section \<open>Properties of the remote generator's constructor\<close>

lemma append_all_step:
  "plain_error e \<Longrightarrow> append_all (multierror_Append m e) errs = append_all m (e # errs)"
  by (cases e; cases m) (simp_all add: append_all_def multierror_Append_def)

lemma loop_failed_prefix:
  "length dialed = i \<Longrightarrow> i + length errs \<le> length endpoints \<Longrightarrow>
   \<forall>j<length errs. NewConnection (i + j) (endpoints ! (i + j)) port creds = Inl (errs ! j) \<and> plain_error (errs ! j) \<Longrightarrow>
   NewRemoteGenerator_loop NewConnection creds endpoints port i multiError dialed =
   NewRemoteGenerator_loop NewConnection creds endpoints port (i + length errs)
     (append_all multiError errs) (dialed @ take (length errs) (drop i endpoints))"
proof (induction errs arbitrary: i multiError dialed)
  case Nil
  then show ?case by (simp add: append_all_def)
next
  case (Cons e errs)
  from Cons.prems(3) have e: "NewConnection i (endpoints ! i) port creds = Inl e" "plain_error e"
    by auto
  have lt: "i < length endpoints" using Cons.prems(2) by simp
  have rest: "\<forall>j<length errs. NewConnection (Suc i + j) (endpoints ! (Suc i + j)) port creds = Inl (errs ! j) \<and> plain_error (errs ! j)"
  proof (intro allI impI)
    fix j assume "j < length errs"
    then have "Suc j < length (e # errs)" by simp
    with Cons.prems(3) have "NewConnection (i + Suc j) (endpoints ! (i + Suc j)) port creds = Inl ((e # errs) ! Suc j) \<and> plain_error ((e # errs) ! Suc j)"
      by blast
    then show "NewConnection (Suc i + j) (endpoints ! (Suc i + j)) port creds = Inl (errs ! j) \<and> plain_error (errs ! j)"
      by simp
  qed
  have step: "NewRemoteGenerator_loop NewConnection creds endpoints port i multiError dialed =
      NewRemoteGenerator_loop NewConnection creds endpoints port (Suc i)
        (multierror_Append multiError e) (dialed @ [endpoints ! i])"
    by (subst NewRemoteGenerator_loop.simps) (simp add: lt e Cons.prems(1))
  have ih: "NewRemoteGenerator_loop NewConnection creds endpoints port (Suc i)
        (multierror_Append multiError e) (dialed @ [endpoints ! i]) =
      NewRemoteGenerator_loop NewConnection creds endpoints port (Suc i + length errs)
        (append_all (multierror_Append multiError e) errs)
        ((dialed @ [endpoints ! i]) @ take (length errs) (drop (Suc i) endpoints))"
    using Cons.prems(1,2) rest by (intro Cons.IH) simp_all
  have tk: "take (length (e # errs)) (drop i endpoints) = endpoints ! i # take (length errs) (drop (Suc i) endpoints)"
    using lt by (simp add: Cons_nth_drop_Suc [symmetric])
  show ?case
    by (simp only: step ih append_all_step [OF e(2)] tk) simp
qed

lemma loop_end:
  "length endpoints \<le> i \<Longrightarrow>
   NewRemoteGenerator_loop NewConnection creds endpoints port i multiError dialed = (None, multiError, dialed)"
  by (subst NewRemoteGenerator_loop.simps) simp

lemma loop_success:
  "i < length endpoints \<Longrightarrow> NewConnection (length dialed) (endpoints ! i) port creds = Inr conn \<Longrightarrow>
   NewRemoteGenerator_loop NewConnection creds endpoints port i multiError dialed =
     (Some conn, multiError, dialed @ [endpoints ! i])"
  by (subst NewRemoteGenerator_loop.simps) simp

lemma loop_all_failed:
  assumes "length errs = length endpoints"
    and "\<forall>j<length errs. NewConnection j (endpoints ! j) port creds = Inl (errs ! j) \<and> plain_error (errs ! j)"
  shows "NewRemoteGenerator_loop NewConnection creds endpoints port 0 None [] =
           (None, append_all None errs, endpoints)"
proof -
  have "NewRemoteGenerator_loop NewConnection creds endpoints port 0 None [] =
        NewRemoteGenerator_loop NewConnection creds endpoints port (0 + length errs)
          (append_all None errs) ([] @ take (length errs) (drop 0 endpoints))"
    using assms by (intro loop_failed_prefix) simp_all
  then show ?thesis using assms(1) by (simp add: loop_end)
qed

lemma loop_first_success:
  assumes "length errs < length endpoints"
    and "\<forall>j<length errs. NewConnection j (endpoints ! j) port creds = Inl (errs ! j) \<and> plain_error (errs ! j)"
    and "NewConnection (length errs) (endpoints ! length errs) port creds = Inr conn"
  shows "NewRemoteGenerator_loop NewConnection creds endpoints port 0 None [] =
           (Some conn, append_all None errs, take (Suc (length errs)) endpoints)"
proof -
  have "NewRemoteGenerator_loop NewConnection creds endpoints port 0 None [] =
        NewRemoteGenerator_loop NewConnection creds endpoints port (0 + length errs)
          (append_all None errs) ([] @ take (length errs) (drop 0 endpoints))"
    using assms(1,2) by (intro loop_failed_prefix) simp_all
  also have "\<dots> = (Some conn, append_all None errs,
      take (length errs) endpoints @ [endpoints ! length errs])"
    using assms(1,3) by (simp add: loop_success)
  finally show ?thesis using assms(1) by (simp add: take_Suc_conv_app_nth)
qed

text \<open>
  Claim C4. \<^verbatim>\<open>NewRemoteGenerator\<close> dials the endpoints one after the other in the order of
  the list. Let the first \<open>length errs\<close> endpoints fail with the errors \<open>errs\<close>. If these
  are all the endpoints, the call returns the aggregate whose entries are \<open>errs\<close>: one
  entry for each endpoint, in the order of the endpoints, each the error of that
  endpoint's dial; every endpoint has been dialled once. If the next endpoint accepts, the
  loop stops there with \<open>errs\<close> recorded in its aggregate, the call returns a generator on
  that connection, and no later endpoint has been dialled.
\<close>

theorem NewRemoteGenerator_failover:
  assumes "endpoints \<noteq> []" and "length errs \<le> length endpoints"
    and "\<forall>j<length errs.
           NewConnection j (endpoints ! j) port (TokenCredentials token) = Inl (errs ! j) \<and>
           plain_error (errs ! j)"
  shows "(length errs = length endpoints \<longrightarrow>
            NewRemoteGenerator NewConnection token endpoints port =
              ((None, Some (MultiError errs)), endpoints)) \<and>
         (length errs < length endpoints \<and>
          NewConnection (length errs) (endpoints ! length errs) port (TokenCredentials token) = Inr conn \<longrightarrow>
            NewRemoteGenerator_loop NewConnection (TokenCredentials token) endpoints port 0 None [] =
              (Some conn, (if errs = [] then None else Some errs), take (Suc (length errs)) endpoints) \<and>
            NewRemoteGenerator NewConnection token endpoints port =
              ((Some \<lparr>client = Some (SecurityClient conn)\<rparr>, None), take (Suc (length errs)) endpoints))"
proof (intro conjI impI)
  assume len: "length errs = length endpoints"
  with assms(1) have ne: "errs \<noteq> []" by auto
  have "NewRemoteGenerator_loop NewConnection (TokenCredentials token) endpoints port 0 None [] =
      (None, append_all None errs, endpoints)"
    using len assms(3) by (rule loop_all_failed)
  then show "NewRemoteGenerator NewConnection token endpoints port =
      ((None, Some (MultiError errs)), endpoints)"
    using assms(1) ne by (simp add: NewRemoteGenerator_def append_all_def ErrorOrNil_def)
next
  assume a: "length errs < length endpoints \<and>
      NewConnection (length errs) (endpoints ! length errs) port (TokenCredentials token) = Inr conn"
  then have l: "NewRemoteGenerator_loop NewConnection (TokenCredentials token) endpoints port 0 None [] =
      (Some conn, append_all None errs, take (Suc (length errs)) endpoints)"
    using assms(3) by (intro loop_first_success) simp_all
  then show "NewRemoteGenerator_loop NewConnection (TokenCredentials token) endpoints port 0 None [] =
      (Some conn, (if errs = [] then None else Some errs), take (Suc (length errs)) endpoints)"
    by (simp add: append_all_def)
  from l show "NewRemoteGenerator NewConnection token endpoints port =
      ((Some \<lparr>client = Some (SecurityClient conn)\<rparr>, None), take (Suc (length errs)) endpoints)"
    using assms(1) by (simp add: NewRemoteGenerator_def)
qed

theorem NewRemoteGenerator_failover_witness:
  "NewRemoteGenerator
     (\<lambda>n a p c. if a = ''10.0.0.3'' then Inr a else Inl (Error (''connection refused: '' @ a)))
     ''token'' [''10.0.0.1'', ''10.0.0.2'', ''10.0.0.3''] 50001 =
     ((Some \<lparr>client = Some (SecurityClient ''10.0.0.3'')\<rparr>, None),
      [''10.0.0.1'', ''10.0.0.2'', ''10.0.0.3'']) \<and>
   NewRemoteGenerator
     (\<lambda>n a p c. if a = ''10.0.0.3'' then Inr a else Inl (Error (''connection refused: '' @ a)))
     ''token'' [''10.0.0.1'', ''10.0.0.2''] 50001 =
     ((None, Some (MultiError [Error ''connection refused: 10.0.0.1'',
                               Error ''connection refused: 10.0.0.2''])),
      [''10.0.0.1'', ''10.0.0.2''])"
  using NewRemoteGenerator_failover
    [of "[''10.0.0.1'', ''10.0.0.2'', ''10.0.0.3'']"
        "[Error ''connection refused: 10.0.0.1'', Error ''connection refused: 10.0.0.2'']"
        "\<lambda>n a p c. if a = ''10.0.0.3'' then Inr a else Inl (Error (''connection refused: '' @ a))"
        50001 "''token''" "''10.0.0.3''"]
    NewRemoteGenerator_failover
    [of "[''10.0.0.1'', ''10.0.0.2'']"
        "[Error ''connection refused: 10.0.0.1'', Error ''connection refused: 10.0.0.2'']"
        "\<lambda>n a p c. if a = ''10.0.0.3'' then Inr a else Inl (Error (''connection refused: '' @ a))"
        50001 "''token''" "''10.0.0.3''"]
  by (simp add: All_less_Suc numeral_2_eq_2)

lemma NewRemoteGenerator_split:
  assumes plain: "\<forall>j<length endpoints. \<forall>e.
      NewConnection j (endpoints ! j) port creds = Inl e \<longrightarrow> plain_error e"
  shows "(\<exists>errs. length errs = length endpoints \<and>
            NewRemoteGenerator_loop NewConnection creds endpoints port 0 None [] =
              (None, append_all None errs, endpoints)) \<or>
         (\<exists>k conn. k < length endpoints \<and>
            NewConnection k (endpoints ! k) port creds = Inr conn \<and>
            (\<forall>j<k. \<exists>e. NewConnection j (endpoints ! j) port creds = Inl e) \<and>
            (\<exists>errs. length errs = k \<and>
            NewRemoteGenerator_loop NewConnection creds endpoints port 0 None [] =
              (Some conn, append_all None errs, take (Suc k) endpoints)))"
proof -
  define fails where "fails j \<longleftrightarrow> (\<exists>e. NewConnection j (endpoints ! j) port creds = Inl e)" for j
  define err where "err j = (SOME e. NewConnection j (endpoints ! j) port creds = Inl e)" for j
  have err: "NewConnection j (endpoints ! j) port creds = Inl (err j)" if "fails j" for j
    using that unfolding fails_def err_def by (rule someI_ex)
  have plain_err: "plain_error (err j)" if "fails j" "j < length endpoints" for j
    using plain err [OF that(1)] that(2) by blast
  show ?thesis
  proof (cases "\<forall>j<length endpoints. fails j")
    case True
    let ?errs = "map err [0..<length endpoints]"
    have "\<forall>j<length ?errs. NewConnection j (endpoints ! j) port creds = Inl (?errs ! j) \<and>
        plain_error (?errs ! j)"
      using True err plain_err by auto
    then have "NewRemoteGenerator_loop NewConnection creds endpoints port 0 None [] =
        (None, append_all None ?errs, endpoints)"
      by (intro loop_all_failed) simp_all
    then show ?thesis by (intro disjI1 exI [of _ ?errs]) simp
  next
    case False
    define k where "k = (LEAST j. j < length endpoints \<and> \<not> fails j)"
    from False have ex: "\<exists>j. j < length endpoints \<and> \<not> fails j" by blast
    then have k: "k < length endpoints" "\<not> fails k"
      unfolding k_def by (metis (mono_tags, lifting) LeastI_ex)+
    have before: "fails j" if "j < k" for j
    proof (rule ccontr)
      assume "\<not> fails j"
      with that k(1) have "j < length endpoints \<and> \<not> fails j" by simp
      then have "k \<le> j" unfolding k_def by (rule Least_le)
      with that show False by simp
    qed
    from k(2) obtain conn where conn: "NewConnection k (endpoints ! k) port creds = Inr conn"
      unfolding fails_def by (cases "NewConnection k (endpoints ! k) port creds") auto
    let ?errs = "map err [0..<k]"
    have "\<forall>j<length ?errs. NewConnection j (endpoints ! j) port creds = Inl (?errs ! j) \<and>
        plain_error (?errs ! j)"
      using before err plain_err k(1) by auto
    then have "NewRemoteGenerator_loop NewConnection creds endpoints port 0 None [] =
        (Some conn, append_all None ?errs, take (Suc (length ?errs)) endpoints)"
      using k(1) conn by (intro loop_first_success) simp_all
    then have "\<exists>errs. length errs = k \<and>
        NewRemoteGenerator_loop NewConnection creds endpoints port 0 None [] =
        (Some conn, append_all None errs, take (Suc k) endpoints)"
      by (intro exI [of _ ?errs]) simp
    moreover have "\<forall>j<k. \<exists>e. NewConnection j (endpoints ! j) port creds = Inl e"
      using before unfolding fails_def by blast
    ultimately show ?thesis using k(1) conn by blast
  qed
qed

text \<open>
  Claim C10. With an empty list of endpoints \<^verbatim>\<open>NewRemoteGenerator\<close> returns an error and
  dials nothing. Whenever it returns without error, it returns a generator whose client is
  set, built on the connection of the first endpoint whose dial succeeded, and every
  endpoint before that one failed.
\<close>

theorem NewRemoteGenerator_empty_or_client:
  assumes "\<forall>j<length endpoints. \<forall>e.
      NewConnection j (endpoints ! j) port (TokenCredentials token) = Inl e \<longrightarrow> plain_error e"
  shows "NewRemoteGenerator NewConnection token [] port =
           ((None, Some (Error ''at least one root of trust endpoint is required'')), []) \<and>
         (NewRemoteGenerator NewConnection token endpoints port = ((g, None), dialed) \<longrightarrow>
            (\<exists>k conn. k < length endpoints \<and>
               NewConnection k (endpoints ! k) port (TokenCredentials token) = Inr conn \<and>
               (\<forall>j<k. \<exists>e. NewConnection j (endpoints ! j) port (TokenCredentials token) = Inl e) \<and>
               g = Some \<lparr>client = Some (SecurityClient conn)\<rparr> \<and>
               dialed = take (Suc k) endpoints))"
proof (intro conjI impI)
  show "NewRemoteGenerator NewConnection token [] port =
      ((None, Some (Error ''at least one root of trust endpoint is required'')), [])"
    by (simp add: NewRemoteGenerator_def)
next
  assume ok: "NewRemoteGenerator NewConnection token endpoints port = ((g, None), dialed)"
  then have ne: "endpoints \<noteq> []" by (auto simp: NewRemoteGenerator_def)
  from assms NewRemoteGenerator_split
    [where endpoints = endpoints and NewConnection = NewConnection and port = port
       and creds = "TokenCredentials token"]
  consider errs where "length errs = length endpoints"
      "NewRemoteGenerator_loop NewConnection (TokenCredentials token) endpoints port 0 None [] =
         (None, append_all None errs, endpoints)"
    | k conn errs where "k < length endpoints"
      "NewConnection k (endpoints ! k) port (TokenCredentials token) = Inr conn"
      "\<forall>j<k. \<exists>e. NewConnection j (endpoints ! j) port (TokenCredentials token) = Inl e"
      "NewRemoteGenerator_loop NewConnection (TokenCredentials token) endpoints port 0 None [] =
         (Some conn, append_all None errs, take (Suc k) endpoints)"
    by blast
  then show "\<exists>k conn. k < length endpoints \<and>
      NewConnection k (endpoints ! k) port (TokenCredentials token) = Inr conn \<and>
      (\<forall>j<k. \<exists>e. NewConnection j (endpoints ! j) port (TokenCredentials token) = Inl e) \<and>
      g = Some \<lparr>client = Some (SecurityClient conn)\<rparr> \<and> dialed = take (Suc k) endpoints"
  proof cases
    case 1
    with ne have "errs \<noteq> []" by auto
    with 1 ne ok show ?thesis
      by (simp add: NewRemoteGenerator_def append_all_def ErrorOrNil_def)
  next
    case 2
    from 2(4) ne ok have "g = Some \<lparr>client = Some (SecurityClient conn)\<rparr>" "dialed = take (Suc k) endpoints"
      by (simp_all add: NewRemoteGenerator_def)
    with 2(1,2,3) show ?thesis by blast
  qed
qed

theorem NewRemoteGenerator_empty_or_client_witness:
  "NewRemoteGenerator (\<lambda>n a p c. if a = ''10.0.0.2'' then Inr a else Inl (Error ''refused''))
      ''token'' [] 50001 =
      ((None, Some (Error ''at least one root of trust endpoint is required'')), []) \<and>
   NewRemoteGenerator (\<lambda>n a p c. if a = ''10.0.0.2'' then Inr a else Inl (Error ''refused''))
      ''token'' [''10.0.0.1'', ''10.0.0.2''] 50001 =
      ((Some \<lparr>client = Some (SecurityClient ''10.0.0.2'')\<rparr>, None), [''10.0.0.1'', ''10.0.0.2'']) \<and>
   (\<exists>k conn. k < length [''10.0.0.1'', ''10.0.0.2''] \<and>
      (if [''10.0.0.1'', ''10.0.0.2''] ! k = ''10.0.0.2''
       then Inr ([''10.0.0.1'', ''10.0.0.2''] ! k) else Inl (Error ''refused'')) = Inr conn \<and>
      Some \<lparr>client = Some (SecurityClient ''10.0.0.2'')\<rparr> =
        Some \<lparr>client = Some (SecurityClient conn)\<rparr> \<and>
      [''10.0.0.1'', ''10.0.0.2''] = take (Suc k) [''10.0.0.1'', ''10.0.0.2''])"
proof -
  let ?dial = "\<lambda>(n::nat) (a::string) (p::int) (c::TokenCredentials).
      if a = ''10.0.0.2'' then Inr a else (Inl (Error ''refused'') :: go_error + string)"
  have run: "NewRemoteGenerator ?dial ''token'' [''10.0.0.1'', ''10.0.0.2''] 50001 =
      ((Some \<lparr>client = Some (SecurityClient ''10.0.0.2'')\<rparr>, None), [''10.0.0.1'', ''10.0.0.2''])"
    by (simp add: NewRemoteGenerator_def NewRemoteGenerator_loop.simps multierror_Append_def)
  have plain: "\<forall>j<length [''10.0.0.1'', ''10.0.0.2'']. \<forall>e.
      ?dial j ([''10.0.0.1'', ''10.0.0.2''] ! j) 50001 (TokenCredentials ''token'') = Inl e \<longrightarrow> plain_error e"
    by auto
  from plain run NewRemoteGenerator_empty_or_client
    [where NewConnection = ?dial and token = "''token''" and port = 50001
       and endpoints = "[''10.0.0.1'', ''10.0.0.2'']"
       and g = "Some \<lparr>client = Some (SecurityClient ''10.0.0.2'')\<rparr>"
       and dialed = "[''10.0.0.1'', ''10.0.0.2'']"]
  show ?thesis by blast
qed

section \<open>Properties of polling\<close>




















section \<open>Properties of secret generation\<close>

lemma delivers_Cons:
  "delivers reader p (b # bs) \<longleftrightarrow> reader p = Inr b \<and> delivers reader (Suc p) bs"
  by (simp add: delivers.simps)

lemma delivers_Nil: "delivers reader p []"
  by (simp add: delivers.simps)

lemma delivers_append:
  "delivers reader p (xs @ ys) \<longleftrightarrow> delivers reader p xs \<and> delivers reader (p + length xs) ys"
  by (induction xs arbitrary: p) (simp_all add: delivers.simps)

lemma delivers_reader_of_from: "delivers (reader_of (xs @ bs)) (length xs) bs"
proof (induction bs arbitrary: xs)
  case Nil
  then show ?case by (simp add: delivers_Nil)
next
  case (Cons b bs)
  from Cons.IH [of "xs @ [b]"] show ?case
    by (simp add: delivers_Cons reader_of_def nth_append)
qed

lemma delivers_reader_of: "delivers (reader_of bs) 0 bs"
  using delivers_reader_of_from [of "[]" bs] by simp

lemma delivers_drop: "delivers reader p bs \<Longrightarrow> delivers reader (p + k) (drop k bs)"
proof (induction bs arbitrary: p k)
  case Nil
  then show ?case by (simp add: delivers_Nil)
next
  case (Cons b bs)
  show ?case
  proof (cases k)
    case 0
    with Cons.prems show ?thesis by simp
  next
    case (Suc k')
    from Cons.prems have "delivers reader (Suc p) bs" by (simp add: delivers_Cons)
    then have "delivers reader (Suc p + k') (drop k' bs)" by (rule Cons.IH)
    with Suc show ?thesis by simp
  qed
qed

lemma readByte_loop_accept:
  "reader p = Inr b \<Longrightarrow> b < maxByteValue \<Longrightarrow> readByte_loop reader p = Some (Inr (b, Suc p))"
  by (subst readByte_loop.simps) simp

lemma readByte_loop_reject:
  "reader p = Inr b \<Longrightarrow> \<not> b < maxByteValue \<Longrightarrow> readByte_loop reader p = readByte_loop reader (Suc p)"
  by (subst readByte_loop.simps) simp

lemma readByte_loop_error:
  "reader p = Inl err \<Longrightarrow> readByte_loop reader p = Some (Inl err)"
  by (subst readByte_loop.simps) simp

text \<open>On a delivered list with an accepted byte, the inner loop returns the first one.\<close>

lemma readByte_loop_delivers:
  "delivers reader p bs \<Longrightarrow> accepted bs \<noteq> [] \<Longrightarrow>
   \<exists>k<length bs. readByte_loop reader p = Some (Inr (hd (accepted bs), p + Suc k)) \<and>
     accepted (drop (Suc k) bs) = tl (accepted bs)"
proof (induction bs arbitrary: p)
  case Nil
  then show ?case by (simp add: accepted_def)
next
  case (Cons b bs)
  from Cons.prems(1) have rd: "reader p = Inr b" and rest: "delivers reader (Suc p) bs"
    by (simp_all add: delivers_Cons)
  show ?case
  proof (cases "b < maxByteValue")
    case True
    with rd have "readByte_loop reader p = Some (Inr (b, Suc p))"
      by (simp add: readByte_loop_accept)
    with True show ?thesis
      by (intro exI [of _ 0]) (simp add: accepted_def)
  next
    case False
    with Cons.prems(2) have ne: "accepted bs \<noteq> []" by (simp add: accepted_def)
    from Cons.IH [OF rest ne] obtain k where k: "k < length bs"
      "readByte_loop reader (Suc p) = Some (Inr (hd (accepted bs), Suc p + Suc k))"
      "accepted (drop (Suc k) bs) = tl (accepted bs)"
      by blast
    from rd False have "readByte_loop reader p = readByte_loop reader (Suc p)"
      by (rule readByte_loop_reject)
    with k False show ?thesis
      by (intro exI [of _ "Suc k"]) (simp add: accepted_def)
  qed
qed

lemma randBytes_loop_delivers:
  "delivers reader p bs \<Longrightarrow> i \<le> length token \<Longrightarrow> length token - i \<le> length (accepted bs) \<Longrightarrow>
   randBytes_loop i token reader p =
     Some (Ok (take i token @ map tokenChar (take (length token - i) (accepted bs))))"
proof (induction "length token - i" arbitrary: i token p bs)
  case 0
  then have "i = length token" by simp
  then show ?case by (subst randBytes_loop.simps) simp
next
  case (Suc n)
  then have lt: "i < length token" by simp
  with Suc.prems(3) have ne: "accepted bs \<noteq> []" by auto
  from readByte_loop_delivers [OF Suc.prems(1) ne] obtain k where k: "k < length bs"
    "readByte_loop reader p = Some (Inr (hd (accepted bs), p + Suc k))"
    "accepted (drop (Suc k) bs) = tl (accepted bs)"
    by blast
  let ?b = "hd (accepted bs)"
  let ?token = "token[i := tokenChar ?b]"
  have d: "delivers reader (p + Suc k) (drop (Suc k) bs)"
    using Suc.prems(1) by (rule delivers_drop)
  have n: "n = length ?token - Suc i" using Suc.hyps(2) by simp
  have le: "length ?token - Suc i \<le> length (accepted (drop (Suc k) bs))"
    using Suc.prems(3) k(3) lt by simp
  have ih: "randBytes_loop (Suc i) ?token reader (p + Suc k) =
      Some (Ok (take (Suc i) ?token @
        map tokenChar (take (length ?token - Suc i) (accepted (drop (Suc k) bs)))))"
    using n d _ le by (rule Suc.hyps(1)) (use lt in simp)
  have step: "randBytes_loop i token reader p = randBytes_loop (Suc i) ?token reader (p + Suc k)"
    by (subst randBytes_loop.simps) (simp add: lt k(2) tokenChar_def)
  have tk: "take (Suc i) ?token = take i token @ [tokenChar ?b]"
    using lt by (simp add: take_Suc_conv_app_nth)
  have acc: "take (length token - i) (accepted bs) =
      ?b # take (length token - Suc i) (tl (accepted bs))"
    using ne lt by (cases "accepted bs") (simp_all add: Suc_diff_Suc take_Suc_Cons [symmetric] del: take_Suc_Cons)
  show ?case
    unfolding step ih tk k(3) acc by simp
qed

text \<open>A read error before the token is full ends the loop with that error.\<close>

lemma readByte_loop_fails:
  "delivers reader p bs \<Longrightarrow> accepted bs = [] \<Longrightarrow> reader (p + length bs) = Inl err \<Longrightarrow>
   readByte_loop reader p = Some (Inl err)"
proof (induction bs arbitrary: p)
  case Nil
  then show ?case by (simp add: readByte_loop_error)
next
  case (Cons b bs)
  from Cons.prems(1) have rd: "reader p = Inr b" and rest: "delivers reader (Suc p) bs"
    by (simp_all add: delivers_Cons)
  from Cons.prems(2) have nb: "\<not> b < maxByteValue" and e: "accepted bs = []"
    by (simp_all add: accepted_def split: if_splits)
  from rd nb have "readByte_loop reader p = readByte_loop reader (Suc p)"
    by (rule readByte_loop_reject)
  also have "\<dots> = Some (Inl err)"
    using rest e by (rule Cons.IH) (use Cons.prems(3) in simp)
  finally show ?case .
qed

lemma randBytes_loop_fails:
  "delivers reader p bs \<Longrightarrow> reader (p + length bs) = Inl err \<Longrightarrow>
   i + length (accepted bs) < length token \<Longrightarrow>
   randBytes_loop i token reader p = Some (Err err)"
proof (induction "length (accepted bs)" arbitrary: i token p bs)
  case 0
  then have e: "accepted bs = []" and lt: "i < length token" by simp_all
  from readByte_loop_fails [OF "0.prems"(1) e "0.prems"(2)] lt show ?case
    by (subst randBytes_loop.simps) simp
next
  case (Suc n)
  then have lt: "i < length token" and ne: "accepted bs \<noteq> []" by auto
  from readByte_loop_delivers [OF Suc.prems(1) ne] obtain k where k: "k < length bs"
    "readByte_loop reader p = Some (Inr (hd (accepted bs), p + Suc k))"
    "accepted (drop (Suc k) bs) = tl (accepted bs)"
    by blast
  let ?token = "token[i := tokenChar (hd (accepted bs))]"
  have d: "delivers reader (p + Suc k) (drop (Suc k) bs)"
    using Suc.prems(1) by (rule delivers_drop)
  have n: "n = length (accepted (drop (Suc k) bs))" using Suc.hyps(2) k(3) by simp
  have "p + Suc k + length (drop (Suc k) bs) = p + length bs" using k(1) by simp
  then have r: "reader (p + Suc k + length (drop (Suc k) bs)) = Inl err"
    using Suc.prems(2) by (simp only:)
  have le: "Suc i + length (accepted (drop (Suc k) bs)) < length ?token"
    using Suc.prems(3) Suc.hyps(2) n by simp
  have ih: "randBytes_loop (Suc i) ?token reader (p + Suc k) = Some (Err err)"
    using n d r le by (rule Suc.hyps(1))
  have step: "randBytes_loop i token reader p = randBytes_loop (Suc i) ?token reader (p + Suc k)"
    by (subst randBytes_loop.simps) (simp add: lt k(2) tokenChar_def)
  show ?case unfolding step ih ..
qed

lemma and_then_Ok:
  "and_then r f = Some (Ok v) \<longleftrightarrow> (\<exists>u. r = Some (Ok u) \<and> f u = Some (Ok v))"
  by (auto simp: and_then_def split: option.splits result.splits)

lemma make_bytes_Ok:
  "make_bytes rt n = Ok z \<longleftrightarrow>
     0 \<le> n \<and> n \<le> maxAlloc rt \<and> \<not> out_of_memory rt n \<and> z = replicate (nat n) (CHR 0x00)"
  by (auto simp: make_bytes_def)

lemma bufio_size_small: "0 \<le> n \<Longrightarrow> n < 2 ^ 62 \<Longrightarrow> bufio_size n = max 16 (2 * n)"
proof -
  assume "0 \<le> n" "n < 2 ^ 62"
  then have "- (2 ^ 63) \<le> n * 2" "n * 2 < 2 ^ 63" by simp_all
  then have "signed_take_bit 63 (n * 2) = n * 2" by (rule signed_take_bit_int_eq_self)
  then show ?thesis by (simp add: bufio_size_def mult.commute)
qed

lemma randBytes_delivers:
  assumes "0 \<le> n" "n < 2 ^ 62" "n \<le> maxAlloc rt" "\<not> out_of_memory rt n"
    and "max 16 (2 * n) \<le> maxAlloc rt" "\<not> out_of_memory rt (max 16 (2 * n))"
    and "delivers reader 0 bs" "nat n \<le> length (accepted bs)"
  shows "randBytes rt n reader = Some (Ok (map tokenChar (take (nat n) (accepted bs))))"
proof -
  have 1: "make_bytes rt n = Ok (replicate (nat n) (CHR 0x00))"
    using assms(1,3,4) by (simp add: make_bytes_Ok)
  have "0 \<le> max 16 (2 * n)" using assms(1) by simp
  then have 2: "make_bytes rt (bufio_size n) = Ok (replicate (nat (max 16 (2 * n))) (CHR 0x00))"
    using assms(1,2,5,6) by (simp only: bufio_size_small make_bytes_Ok) simp
  have 3: "randBytes_loop 0 (replicate (nat n) (CHR 0x00)) reader 0 =
      Some (Ok (map tokenChar (take (nat n) (accepted bs))))"
    using randBytes_loop_delivers [of reader 0 bs 0 "replicate (nat n) (CHR 0x00)"] assms(7,8)
    by simp
  show ?thesis
    unfolding randBytes_def 1 2 by (simp add: and_then_def 3)
qed

lemma randBytes_fails:
  assumes "0 \<le> n" "n < 2 ^ 62" "n \<le> maxAlloc rt" "\<not> out_of_memory rt n"
    and "max 16 (2 * n) \<le> maxAlloc rt" "\<not> out_of_memory rt (max 16 (2 * n))"
    and "delivers reader 0 bs" "length (accepted bs) < nat n" "reader (length bs) = Inl err"
  shows "randBytes rt n reader = Some (Err err)"
proof -
  have 1: "make_bytes rt n = Ok (replicate (nat n) (CHR 0x00))"
    using assms(1,3,4) by (simp add: make_bytes_Ok)
  have "0 \<le> max 16 (2 * n)" using assms(1) by simp
  then have 2: "make_bytes rt (bufio_size n) = Ok (replicate (nat (max 16 (2 * n))) (CHR 0x00))"
    using assms(1,2,5,6) by (simp only: bufio_size_small make_bytes_Ok) simp
  have 3: "randBytes_loop 0 (replicate (nat n) (CHR 0x00)) reader 0 = Some (Err err)"
    using randBytes_loop_fails [of reader 0 bs err 0 "replicate (nat n) (CHR 0x00)"] assms(7,8,9)
    by simp
  show ?thesis
    unfolding randBytes_def 1 2 by (simp add: and_then_def 3)
qed

lemma randBytes_out_of_range:
  "n < 0 \<or> maxAlloc rt < n \<Longrightarrow> randBytes rt n reader = Some (Panic ''makeslice: len out of range'')"
  by (auto simp: randBytes_def make_bytes_def and_then_def)

text \<open>Whenever the inner loop returns a byte, it has skipped rejected bytes only.\<close>

lemma readByte_loop_Some:
  "readByte_loop reader p = Some r \<Longrightarrow>
   (case r of
      Inl err \<Rightarrow> True
    | Inr (b, q) \<Rightarrow> b < maxByteValue \<and>
        (\<exists>rej. q = p + length rej + 1 \<and> delivers reader p (rej @ [b]) \<and> accepted rej = []))"
proof (induction rule: readByte_loop.raw_induct [rotated 1, consumes 1, case_names step])
  case (step loop reader p r)
  note 1 = step
  show ?case
  proof (cases "reader p")
    case (Inl err)
    with 1(2) show ?thesis by auto
  next
    case (Inr b)
    show ?thesis
    proof (cases "b < maxByteValue")
      case True
      with Inr 1(2) have r: "r = Inr (b, Suc p)" by simp
      have "delivers reader p ([] @ [b])" using Inr by (simp add: delivers_Cons delivers_Nil)
      then have "\<exists>rej. Suc p = p + length rej + 1 \<and> delivers reader p (rej @ [b]) \<and> accepted rej = []"
        by (intro exI [of _ "[]"]) (simp add: accepted_def)
      with True r show ?thesis by simp
    next
      case False
      with Inr 1(2) have rec: "loop reader (Suc p) = Some r" by simp
      show ?thesis
      proof (cases r)
        case (Inl err)
        then show ?thesis by simp
      next
        case r: (Inr bq)
        obtain b' q where bq: "bq = (b', q)" by (cases bq)
        from 1(1) [OF rec] r bq obtain rej where rej: "b' < maxByteValue"
          "q = Suc p + length rej + 1" "delivers reader (Suc p) (rej @ [b'])" "accepted rej = []"
          by auto
        have "q = p + length (b # rej) + 1" using rej(2) by simp
        moreover have "delivers reader p ((b # rej) @ [b'])"
          using Inr rej(3) by (simp add: delivers_Cons)
        moreover have "accepted (b # rej) = []" using False rej(4) by (simp add: accepted_def)
        ultimately have "\<exists>rej. q = p + length rej + 1 \<and> delivers reader p (rej @ [b']) \<and> accepted rej = []"
          by blast
        with rej(1) r bq show ?thesis by simp
      qed
    qed
  qed
qed

lemma accepted_append: "accepted (xs @ ys) = accepted xs @ accepted ys"
  by (simp add: accepted_def)

lemma randBytes_loop_Some:
  "randBytes_loop i token reader p = Some (Ok t) \<Longrightarrow> i \<le> length token \<Longrightarrow>
   \<exists>bs. delivers reader p bs \<and> length (accepted bs) = length token - i \<and>
        t = take i token @ map tokenChar (accepted bs)"
proof (induction i token reader p rule: randBytes_loop.induct)
  case (1 i token reader p)
  show ?case
  proof (cases "i < length token")
    case False
    with 1(2,3) have "t = token" "i = length token"
      by (simp_all add: randBytes_loop.simps [of i token])
    then show ?thesis
      by (intro exI [of _ "[]"]) (simp add: delivers_Nil accepted_def)
  next
    case True
    from 1(2) True obtain b q where rb: "readByte_loop reader p = Some (Inr (b, q))"
      and rec: "randBytes_loop (Suc i) (token[i := tokenChar b]) reader q = Some (Ok t)"
      by (subst (asm) randBytes_loop.simps)
        (auto simp: tokenChar_def split: option.splits sum.splits)
    from readByte_loop_Some [OF rb] obtain rej where rej: "b < maxByteValue"
      "q = p + length rej + 1" "delivers reader p (rej @ [b])" "accepted rej = []"
      by auto
    have "\<exists>bs. delivers reader q bs \<and>
        length (accepted bs) = length (token[i := tokenChar b]) - Suc i \<and>
        t = take (Suc i) (token[i := tokenChar b]) @ map tokenChar (accepted bs)"
      using 1(1) [folded tokenChar_def, OF True rb refl refl rec] True by simp
    then obtain bs where bs: "delivers reader q bs"
      "length (accepted bs) = length token - Suc i"
      "t = take (Suc i) (token[i := tokenChar b]) @ map tokenChar (accepted bs)"
      by auto
    have d: "delivers reader p ((rej @ [b]) @ bs)"
      using rej(2,3) bs(1) by (simp add: delivers_append del: append_assoc)
    have a: "accepted ((rej @ [b]) @ bs) = b # accepted bs"
      using rej(1,4) by (simp add: accepted_append) (simp add: accepted_def)
    have l: "length (accepted ((rej @ [b]) @ bs)) = length token - i"
      using a bs(2) True by simp
    have t: "t = take i token @ map tokenChar (accepted ((rej @ [b]) @ bs))"
      using bs(3) True unfolding a by (simp add: take_Suc_conv_app_nth)
    from d l t show ?thesis by blast
  qed
qed

lemma randBytes_Some:
  assumes "randBytes rt n reader = Some (Ok token)"
  shows "\<exists>bs. delivers reader 0 bs \<and> int (length (accepted bs)) = n \<and>
           token = map tokenChar (accepted bs)"
proof -
  from assms obtain z where z: "make_bytes rt n = Ok z"
    and l: "randBytes_loop 0 z reader 0 = Some (Ok token)"
    by (auto simp: randBytes_def and_then_Ok)
  from z have n: "0 \<le> n" and zz: "z = replicate (nat n) (CHR 0x00)"
    by (simp_all add: make_bytes_Ok)
  from randBytes_loop_Some [OF l] n zz show ?thesis by auto
qed

lemma length_validBootstrapTokenChars: "length validBootstrapTokenChars = 36"
  by (simp add: validBootstrapTokenChars_def)

lemma distinct_validBootstrapTokenChars: "distinct validBootstrapTokenChars"
  by (simp add: validBootstrapTokenChars_def)

lemma tokenChar_in_alphabet: "tokenChar b \<in> set validBootstrapTokenChars"
  by (simp add: tokenChar_def length_validBootstrapTokenChars)

lemma residue_class_card:
  assumes "j < 36"
  shows "card {n::nat. n < 252 \<and> n mod 36 = j} = 7"
proof -
  have "{n::nat. n < 252 \<and> n mod 36 = j} = (\<lambda>m. j + 36 * m) ` {0..<7}"
  proof (intro set_eqI iffI)
    fix n assume "n \<in> {n::nat. n < 252 \<and> n mod 36 = j}"
    then have n: "n < 252" "n mod 36 = j" by simp_all
    have "n = j + 36 * (n div 36)" using n(2) mult_div_mod_eq [of 36 n] by simp
    moreover have "n div 36 < 7" using n(1) by (intro less_mult_imp_div_less) simp
    ultimately show "n \<in> (\<lambda>m. j + 36 * m) ` {0..<7}" by (intro image_eqI [of _ _ "n div 36"]) simp_all
  next
    fix n assume "n \<in> (\<lambda>m. j + 36 * m) ` {0..<7}"
    then obtain m where "m < 7" "n = j + 36 * m" by auto
    with assms show "n \<in> {n::nat. n < 252 \<and> n mod 36 = j}" by simp
  qed
  moreover have "inj_on (\<lambda>m. j + 36 * m) {0..<7}" by (simp add: inj_on_def)
  ultimately show ?thesis by (simp add: card_image)
qed

lemma accepted_bytes_image:
  "{b::byte. b < maxByteValue \<and> unat b mod 36 = j} = of_nat ` {n::nat. n < 252 \<and> n mod 36 = j}"
proof (intro set_eqI iffI)
  fix b :: byte assume "b \<in> {b. b < maxByteValue \<and> unat b mod 36 = j}"
  then have "unat b < 252" "unat b mod 36 = j"
    by (simp_all add: maxByteValue_def word_less_nat_alt)
  then show "b \<in> of_nat ` {n::nat. n < 252 \<and> n mod 36 = j}"
    by (intro image_eqI [of _ _ "unat b"]) simp_all
next
  fix b :: byte assume "b \<in> of_nat ` {n::nat. n < 252 \<and> n mod 36 = j}"
  then obtain n where n: "n < 252" "n mod 36 = j" "b = of_nat n" by auto
  then have "unat b = n" by (simp add: unat_of_nat)
  with n show "b \<in> {b. b < maxByteValue \<and> unat b mod 36 = j}"
    by (simp add: maxByteValue_def word_less_nat_alt)
qed

lemma tokenChar_preimage_card:
  assumes "c \<in> set validBootstrapTokenChars"
  shows "card {b. b < maxByteValue \<and> tokenChar b = c} = 7"
proof -
  from assms obtain j where j: "j < 36" "c = validBootstrapTokenChars ! j"
    by (auto simp: in_set_conv_nth length_validBootstrapTokenChars)
  have "tokenChar b = c \<longleftrightarrow> unat b mod 36 = j" for b
    using j distinct_validBootstrapTokenChars
    by (simp add: tokenChar_def length_validBootstrapTokenChars nth_eq_iff_index_eq)
  then have "{b. b < maxByteValue \<and> tokenChar b = c} = {b::byte. b < maxByteValue \<and> unat b mod 36 = j}"
    by simp
  also have "\<dots> = of_nat ` {n::nat. n < 252 \<and> n mod 36 = j}"
    by (rule accepted_bytes_image)
  finally have "card {b. b < maxByteValue \<and> tokenChar b = c} =
      card ((of_nat :: nat \<Rightarrow> byte) ` {n::nat. n < 252 \<and> n mod 36 = j})"
    by simp
  also have "\<dots> = card {n::nat. n < 252 \<and> n mod 36 = j}"
  proof (rule card_image)
    show "inj_on (of_nat :: nat \<Rightarrow> byte) {n::nat. n < 252 \<and> n mod 36 = j}"
    proof (rule inj_onI)
      fix x y :: nat
      assume "x \<in> {n. n < 252 \<and> n mod 36 = j}" "y \<in> {n. n < 252 \<and> n mod 36 = j}"
        and eq: "(of_nat x :: byte) = of_nat y"
      then have "x < 256" "y < 256" by simp_all
      then have ux: "unat (of_nat x :: byte) = x" and uy: "unat (of_nat y :: byte) = y"
        by (simp_all add: unat_of_nat)
      have "unat (of_nat x :: byte) = unat (of_nat y :: byte)"
        using eq by (rule arg_cong)
      then show "x = y" by (simp only: ux uy)
    qed
  qed
  also have "\<dots> = 7" using j(1) by (rule residue_class_card)
  finally show ?thesis .
qed

lemma sample_accepted:
  "accepted [0, 255, 35, 36, 253, 71, 251, 10, 11] = [0, 35, 36, 71, 251, 10, 11]"
  by (simp add: accepted_def maxByteValue_def)

lemma delivers_iff:
  "delivers reader p bs \<longleftrightarrow> (\<forall>k<length bs. reader (p + k) = Inr (bs ! k))"
proof (induction bs arbitrary: p)
  case Nil
  then show ?case by (simp add: delivers_Nil)
next
  case (Cons b bs)
  have "(\<forall>k<length (b # bs). reader (p + k) = Inr ((b # bs) ! k)) \<longleftrightarrow>
      reader p = Inr b \<and> (\<forall>k<length bs. reader (Suc p + k) = Inr (bs ! k))"
    by (auto simp: less_Suc_eq_0_disj)
  with Cons.IH [of "Suc p"] show ?case by (simp only: delivers_Cons)
qed

text \<open>
  Claim C6, as stated, fails: a stream that ends after two accepted bytes makes a call for
  six characters return the stream's error and no string, and a call for \<open>2 ^ 62\<close>
  characters or for \<open>- 1\<close> characters panics in the allocation of the token.
\<close>

theorem randBytes_counterexample:
  "randBytes sample_runtime 6 (reader_of [0, 255, 35]) = Some (Err (Error ''EOF'')) \<and>
   randBytes sample_runtime (2 ^ 62) (reader_of [0, 255, 35]) =
     Some (Panic ''makeslice: len out of range'') \<and>
   randBytes sample_runtime (- 1) (reader_of [0, 255, 35]) =
     Some (Panic ''makeslice: len out of range'')"
proof -
  let ?bs = "[0, 255, 35] :: byte list"
  have "randBytes sample_runtime 6 (reader_of ?bs) = Some (Err (Error ''EOF''))"
    by (rule randBytes_fails [where bs = ?bs])
      (simp_all add: sample_runtime_def delivers_reader_of accepted_def maxByteValue_def
        reader_of_def del: delivers.simps)
  moreover have "randBytes sample_runtime (2 ^ 62) (reader_of ?bs) =
      Some (Panic ''makeslice: len out of range'')"
    by (rule randBytes_out_of_range) (simp add: sample_runtime_def)
  moreover have "randBytes sample_runtime (- 1) (reader_of ?bs) =
      Some (Panic ''makeslice: len out of range'')"
    by (rule randBytes_out_of_range) simp
  ultimately show ?thesis by blast
qed

text \<open>
  Claim C6, amended. Whenever \<^verbatim>\<open>randBytes\<close> returns a token for length \<open>n\<close>, the token
  has exactly \<open>n\<close> characters, all of the 36-symbol alphabet, and it is the image of the
  accepted bytes among those the reader delivered. For a length from 0 to the runtime's
  limit, with memory for the token and for the reader's buffer of \<open>max 16 (2 * n)\<close> bytes:
  when the reader delivers \<open>n\<close> bytes below 252, the call returns the token made of the
  first \<open>n\<close> of them, in order, each mapped to the symbol at its value modulo 36, the bytes
  at or above 252 being skipped; when the reader fails before it has delivered \<open>n\<close> such
  bytes, the call returns the reader's error. A negative length and a length above the
  runtime's limit panic. Every symbol of the alphabet is the image of exactly 7 of the 252
  accepted byte values. Four conjuncts spell out the notions used: the alphabet, the
  character of a byte, the accepted bytes of a list, and a reader that delivers a list.
\<close>

theorem randBytes_rejection_sampling:
  "(randBytes rt n reader = Some (Ok token) \<longrightarrow>
      int (length token) = n \<and> set token \<subseteq> set validBootstrapTokenChars \<and>
      (\<exists>bs. delivers reader 0 bs \<and> token = map tokenChar (accepted bs))) \<and>
   (0 \<le> n \<and> n < 2 ^ 62 \<and> n \<le> maxAlloc rt \<and> \<not> out_of_memory rt n \<and>
    max 16 (2 * n) \<le> maxAlloc rt \<and> \<not> out_of_memory rt (max 16 (2 * n)) \<and>
    delivers reader 0 bs \<and> nat n \<le> length (accepted bs) \<longrightarrow>
      randBytes rt n reader = Some (Ok (map tokenChar (take (nat n) (accepted bs))))) \<and>
   (0 \<le> n \<and> n < 2 ^ 62 \<and> n \<le> maxAlloc rt \<and> \<not> out_of_memory rt n \<and>
    max 16 (2 * n) \<le> maxAlloc rt \<and> \<not> out_of_memory rt (max 16 (2 * n)) \<and>
    delivers reader 0 bs \<and> length (accepted bs) < nat n \<and> reader (length bs) = Inl err \<longrightarrow>
      randBytes rt n reader = Some (Err err)) \<and>
   (n < 0 \<or> maxAlloc rt < n \<longrightarrow>
      randBytes rt n reader = Some (Panic ''makeslice: len out of range'')) \<and>
   validBootstrapTokenChars = ''0123456789abcdefghijklmnopqrstuvwxyz'' \<and>
   tokenChar b = validBootstrapTokenChars ! (unat b mod 36) \<and>
   accepted bs = filter (\<lambda>b. b < 252) bs \<and>
   (delivers reader p bs \<longleftrightarrow> (\<forall>k<length bs. reader (p + k) = Inr (bs ! k))) \<and>
   (\<forall>c\<in>set validBootstrapTokenChars. card {b. b < 252 \<and> tokenChar b = c} = 7)"
proof (intro conjI impI ballI)
  assume a: "randBytes rt n reader = Some (Ok token)"
  from randBytes_Some [OF a] obtain bs' where bs': "delivers reader 0 bs'"
    "int (length (accepted bs')) = n" "token = map tokenChar (accepted bs')"
    by blast
  from bs'(2,3) show "int (length token) = n" by simp
  from bs'(3) show "set token \<subseteq> set validBootstrapTokenChars"
    using tokenChar_in_alphabet by auto
  from bs'(1,3) show "\<exists>bs. delivers reader 0 bs \<and> token = map tokenChar (accepted bs)"
    by blast
next
  assume "0 \<le> n \<and> n < 2 ^ 62 \<and> n \<le> maxAlloc rt \<and> \<not> out_of_memory rt n \<and>
    max 16 (2 * n) \<le> maxAlloc rt \<and> \<not> out_of_memory rt (max 16 (2 * n)) \<and>
    delivers reader 0 bs \<and> nat n \<le> length (accepted bs)"
  then show "randBytes rt n reader = Some (Ok (map tokenChar (take (nat n) (accepted bs))))"
    by (intro randBytes_delivers) simp_all
next
  assume "0 \<le> n \<and> n < 2 ^ 62 \<and> n \<le> maxAlloc rt \<and> \<not> out_of_memory rt n \<and>
    max 16 (2 * n) \<le> maxAlloc rt \<and> \<not> out_of_memory rt (max 16 (2 * n)) \<and>
    delivers reader 0 bs \<and> length (accepted bs) < nat n \<and> reader (length bs) = Inl err"
  then show "randBytes rt n reader = Some (Err err)"
    by (intro randBytes_fails [where bs = bs]) simp_all
next
  assume "n < 0 \<or> maxAlloc rt < n"
  then show "randBytes rt n reader = Some (Panic ''makeslice: len out of range'')"
    by (rule randBytes_out_of_range)
next
  show "validBootstrapTokenChars = ''0123456789abcdefghijklmnopqrstuvwxyz''"
    by (simp add: validBootstrapTokenChars_def)
  show "tokenChar b = validBootstrapTokenChars ! (unat b mod 36)"
    by (simp add: tokenChar_def length_validBootstrapTokenChars)
  show "accepted bs = filter (\<lambda>b. b < 252) bs"
    by (simp add: accepted_def maxByteValue_def)
  show "delivers reader p bs \<longleftrightarrow> (\<forall>k<length bs. reader (p + k) = Inr (bs ! k))"
    by (rule delivers_iff)
next
  fix c assume "c \<in> set validBootstrapTokenChars"
  then have "card {b. b < maxByteValue \<and> tokenChar b = c} = 7"
    by (rule tokenChar_preimage_card)
  then show "card {b. b < 252 \<and> tokenChar b = c} = 7"
    by (simp add: maxByteValue_def)
qed

theorem randBytes_rejection_sampling_witness:
  "randBytes sample_runtime 6 (reader_of [0, 255, 35, 36, 253, 71, 251, 10, 11]) =
     Some (Ok ''0z0zza'') \<and>
   int (length ''0z0zza'') = 6 \<and>
   randBytes sample_runtime 6 (reader_of [0, 255, 35, 36, 253]) = Some (Err (Error ''EOF'')) \<and>
   randBytes sample_runtime (2 ^ 62) (reader_of []) = Some (Panic ''makeslice: len out of range'') \<and>
   randBytes sample_runtime (- 1) (reader_of []) = Some (Panic ''makeslice: len out of range'') \<and>
   card {b. b < 252 \<and> tokenChar b = CHR ''a''} = 7"
proof -
  let ?bs = "[0, 255, 35, 36, 253, 71, 251, 10, 11] :: byte list"
  let ?cs = "[0, 255, 35, 36, 253] :: byte list"
  note inst = randBytes_rejection_sampling [of sample_runtime 6 "reader_of ?bs" "''0z0zza''" ?bs]
  have pre: "(0::int) \<le> 6 \<and> (6::int) < 2 ^ 62 \<and> 6 \<le> maxAlloc sample_runtime \<and>
      \<not> out_of_memory sample_runtime 6 \<and> max 16 (2 * 6) \<le> maxAlloc sample_runtime \<and>
      \<not> out_of_memory sample_runtime (max 16 (2 * 6)) \<and>
      delivers (reader_of ?bs) 0 ?bs \<and> nat 6 \<le> length (accepted ?bs)"
    by (simp add: delivers_reader_of sample_accepted sample_runtime_def del: delivers.simps)
  have tok: "map tokenChar (take (nat 6) (accepted ?bs)) = ''0z0zza''"
    by (simp add: sample_accepted tokenChar_def validBootstrapTokenChars_def)
  from inst pre tok have run: "randBytes sample_runtime 6 (reader_of ?bs) = Some (Ok ''0z0zza'')"
    by simp
  from inst run have "int (length ''0z0zza'') = 6" by blast
  moreover have "CHR ''a'' \<in> set validBootstrapTokenChars"
    by (simp add: validBootstrapTokenChars_def)
  with inst have "card {b. b < 252 \<and> tokenChar b = CHR ''a''} = 7" by blast
  moreover have "(0::int) \<le> 6 \<and> (6::int) < 2 ^ 62 \<and> 6 \<le> maxAlloc sample_runtime \<and>
      \<not> out_of_memory sample_runtime 6 \<and> max 16 (2 * 6) \<le> maxAlloc sample_runtime \<and>
      \<not> out_of_memory sample_runtime (max 16 (2 * 6)) \<and>
      delivers (reader_of ?cs) 0 ?cs \<and> length (accepted ?cs) < nat 6 \<and>
      reader_of ?cs (length ?cs) = Inl (Error ''EOF'')"
    by (simp add: delivers_reader_of accepted_def maxByteValue_def sample_runtime_def
        reader_of_def del: delivers.simps)
  with randBytes_rejection_sampling
    [where rt = sample_runtime and n = 6 and reader = "reader_of ?cs" and bs = ?cs
       and err = "Error ''EOF''"]
  have "randBytes sample_runtime 6 (reader_of ?cs) = Some (Err (Error ''EOF''))"
    by blast
  moreover have "randBytes sample_runtime (2 ^ 62) (reader_of []) =
      Some (Panic ''makeslice: len out of range'')"
    using randBytes_rejection_sampling [of sample_runtime "2 ^ 62" "reader_of []"]
    by (simp add: sample_runtime_def)
  moreover have "randBytes sample_runtime (- 1) (reader_of []) =
      Some (Panic ''makeslice: len out of range'')"
    using randBytes_rejection_sampling [of sample_runtime "- 1" "reader_of []"]
    by simp
  ultimately show ?thesis using run by blast
qed

lemma genToken_Ok:
  "genToken rt lenFirst lenSecond reader1 reader2 = Some (Ok s) \<longleftrightarrow>
   (\<exists>first second. randBytes rt lenFirst reader1 = Some (Ok first) \<and>
      randBytes rt lenSecond reader2 = Some (Ok second) \<and> s = first @ ''.'' @ second)"
  by (auto simp: genToken_def and_then_Ok)

lemma randBytes_Ok_chars:
  assumes "randBytes rt n reader = Some (Ok token)"
  shows "int (length token) = n" and "set token \<subseteq> set validBootstrapTokenChars"
proof -
  from randBytes_Some [OF assms] obtain bs where bs: "int (length (accepted bs)) = n"
    "token = map tokenChar (accepted bs)"
    by blast
  then show "int (length token) = n" by simp
  from bs(2) show "set token \<subseteq> set validBootstrapTokenChars"
    using tokenChar_in_alphabet by auto
qed

lemma genToken_format:
  assumes "genToken rt 6 16 reader1 reader2 = Some (Ok s)"
  shows "\<exists>a b. s = a @ ''.'' @ b \<and> length a = 6 \<and> length b = 16 \<and>
           set a \<subseteq> set validBootstrapTokenChars \<and> set b \<subseteq> set validBootstrapTokenChars"
proof -
  from assms obtain first second where r: "randBytes rt 6 reader1 = Some (Ok first)"
    "randBytes rt 16 reader2 = Some (Ok second)" and s: "s = first @ ''.'' @ second"
    by (auto simp: genToken_Ok)
  from randBytes_Ok_chars [OF r(1)] have f: "length first = 6"
    "set first \<subseteq> set validBootstrapTokenChars"
    by simp_all
  from randBytes_Ok_chars [OF r(2)] have g: "length second = 16"
    "set second \<subseteq> set validBootstrapTokenChars"
    by simp_all
  from s f g show ?thesis by blast
qed

lemma length_hex_EncodeToString: "length (hex_EncodeToString bs) = 2 * length bs"
  by (induction bs) simp_all

text \<open>The two digits of a byte are its quotient and its remainder by 16.\<close>

lemma unat_byte: "unat (v :: byte) < 256"
  using unsigned_less [of v, where 'a = nat] by simp

lemma hex_digit: "unat (drop_bit 4 (v :: byte)) = unat v div 16" "unat (v AND 0x0f) = unat v mod 16"
proof -
  show "unat (drop_bit 4 v) = unat v div 16"
    unfolding drop_bit_eq_div by (simp add: unat_div)
  have "(0x0f :: byte) = mask 4" by (simp add: mask_eq_exp_minus_1)
  then have "v AND 0x0f = take_bit 4 v" by (simp add: take_bit_eq_mask)
  then show "unat (v AND 0x0f) = unat v mod 16"
    by (simp add: unsigned_take_bit_eq take_bit_eq_mod unat_mod)
qed

lemma hex_EncodeToString_nth:
  "i < length vs \<Longrightarrow>
   hex_EncodeToString vs ! (2 * i) = hextable ! (unat (vs ! i) div 16) \<and>
   hex_EncodeToString vs ! (2 * i + 1) = hextable ! (unat (vs ! i) mod 16)"
proof (induction vs arbitrary: i)
  case Nil
  then show ?case by simp
next
  case (Cons v vs)
  show ?case
  proof (cases i)
    case 0
    then show ?thesis by (simp add: hex_digit)
  next
    case (Suc j)
    with Cons.prems have "j < length vs" by simp
    from Cons.IH [OF this] Suc show ?thesis by simp
  qed
qed

lemma hex_EncodeToString_set: "set (hex_EncodeToString vs) \<subseteq> set hextable"
proof (induction vs)
  case Nil
  then show ?case by simp
next
  case (Cons v vs)
  have "unat v div 16 < length hextable" "unat v mod 16 < length hextable"
    using unat_byte [of v] by (simp_all add: hextable_def less_mult_imp_div_less)
  then have "hextable ! (unat v div 16) \<in> set hextable" "hextable ! (unat v mod 16) \<in> set hextable"
    by (simp_all only: nth_mem)
  with Cons.IH show ?case by (simp add: hex_digit)
qed

text \<open>
  The four characters of a group of three bytes are the four 6-bit digits of the 24-bit
  number the bytes form.
\<close>

lemma sextet_arith:
  fixes a b c :: nat
  assumes "a < 256" "b < 256" "c < 256"
  shows "(a * 65536 + b * 256 + c) div 262144 mod 64 = a div 4"
    and "(a * 65536 + b * 256 + c) div 4096 mod 64 = a mod 4 * 16 + b div 16"
    and "(a * 65536 + b * 256 + c) div 64 mod 64 = b mod 16 * 4 + c div 64"
    and "(a * 65536 + b * 256 + c) mod 64 = c mod 64"
proof -
  define x y u v s t where "x = a div 4" and "y = a mod 4" and "u = b div 16" and "v = b mod 16"
    and "s = c div 64" and "t = c mod 64"
  have a: "a = 4 * x + y" "y < 4" and b: "b = 16 * u + v" "v < 16" and c: "c = 64 * s + t" "t < 64"
    by (simp_all add: x_def y_def u_def v_def s_def t_def)
  have x: "x < 64" and u: "u < 16" and s: "s < 4" using a b c assms by simp_all
  have "(a * 65536 + b * 256 + c) div 262144 = x"
    by (rule div_nat_eqI) (use a b c u s in simp_all)
  then show "(a * 65536 + b * 256 + c) div 262144 mod 64 = a div 4"
    using x by (simp add: x_def)
  have "(a * 65536 + b * 256 + c) div 4096 = 64 * x + (16 * y + u)"
    by (rule div_nat_eqI) (use a b c u s in simp_all)
  moreover have "16 * y + u < 64" using a u by simp
  ultimately have "(a * 65536 + b * 256 + c) div 4096 mod 64 = 16 * y + u"
    by (simp only: mod_mult_self4 mod_less)
  then show "(a * 65536 + b * 256 + c) div 4096 mod 64 = a mod 4 * 16 + b div 16"
    by (simp add: y_def u_def)
  have "(a * 65536 + b * 256 + c) div 64 = 64 * (a * 16 + u) + (4 * v + s)"
    by (rule div_nat_eqI) (use a b c u s in simp_all)
  moreover have "4 * v + s < 64" using b s by simp
  ultimately have "(a * 65536 + b * 256 + c) div 64 mod 64 = 4 * v + s"
    by (simp only: mod_mult_self4 mod_less)
  then show "(a * 65536 + b * 256 + c) div 64 mod 64 = b mod 16 * 4 + c div 64"
    by (simp add: v_def s_def)
  have "a * 65536 + b * 256 + c = 64 * (a * 1024 + b * 4) + c" by simp
  then show "(a * 65536 + b * 256 + c) mod 64 = c mod 64" by (simp only: mod_mult_self4)
qed

lemma length_base64_EncodeToString:
  "length (base64_EncodeToString bs) = 4 * ((length bs + 2) div 3)"
proof (induction bs rule: base64_EncodeToString.induct)
  case (4 a b c src)
  have "(length (a # b # c # src) + 2) div 3 = Suc ((length src + 2) div 3)"
    by simp
  with 4 show ?case by (simp add: Let_def)
qed (simp_all add: Let_def)

lemma base64_group:
  "3 * g + 3 \<le> length bs \<Longrightarrow>
   base64_EncodeToString bs ! (4 * g) = encodeStd ! (unat (bs ! (3 * g)) div 4) \<and>
   base64_EncodeToString bs ! (4 * g + 1) =
     encodeStd ! (unat (bs ! (3 * g)) mod 4 * 16 + unat (bs ! (3 * g + 1)) div 16) \<and>
   base64_EncodeToString bs ! (4 * g + 2) =
     encodeStd ! (unat (bs ! (3 * g + 1)) mod 16 * 4 + unat (bs ! (3 * g + 2)) div 64) \<and>
   base64_EncodeToString bs ! (4 * g + 3) = encodeStd ! (unat (bs ! (3 * g + 2)) mod 64)"
proof (induction g arbitrary: bs)
  case 0
  then obtain a b c src where bs: "bs = a # b # c # src"
    by (cases bs rule: base64_EncodeToString.cases) simp_all
  show ?case
    unfolding bs by (simp add: Let_def sextet_def sextet_arith unat_byte)
next
  case (Suc g)
  then obtain a b c src where bs: "bs = a # b # c # src"
    by (cases bs rule: base64_EncodeToString.cases) simp_all
  with Suc.prems have "3 * g + 3 \<le> length src" by simp
  from Suc.IH [OF this] show ?case
    unfolding bs by (simp add: Let_def add.commute)
qed

lemma base64_last2:
  "length bs = 3 * g + 2 \<Longrightarrow>
   base64_EncodeToString bs ! (4 * g) = encodeStd ! (unat (bs ! (3 * g)) div 4) \<and>
   base64_EncodeToString bs ! (4 * g + 1) =
     encodeStd ! (unat (bs ! (3 * g)) mod 4 * 16 + unat (bs ! (3 * g + 1)) div 16) \<and>
   base64_EncodeToString bs ! (4 * g + 2) = encodeStd ! (unat (bs ! (3 * g + 1)) mod 16 * 4) \<and>
   base64_EncodeToString bs ! (4 * g + 3) = CHR ''=''"
proof (induction g arbitrary: bs)
  case 0
  then obtain a b where bs: "bs = [a, b]"
    by (cases bs rule: base64_EncodeToString.cases) simp_all
  show ?case
    unfolding bs using sextet_arith [of "unat a" "unat b" 0]
    by (simp add: Let_def sextet_def unat_byte)
next
  case (Suc g)
  then obtain a b c src where bs: "bs = a # b # c # src"
    by (cases bs rule: base64_EncodeToString.cases) simp_all
  with Suc.prems have "length src = 3 * g + 2" by simp
  from Suc.IH [OF this] show ?case
    unfolding bs by (simp add: Let_def add.commute)
qed

lemma rand_Read_Ok:
  "rand_Read reader p n = Ok bs \<Longrightarrow> length bs = n \<and> delivers reader p bs"
proof (induction n arbitrary: p bs)
  case 0
  then show ?case by (simp add: delivers_Nil)
next
  case (Suc n)
  then show ?case
    by (auto simp: delivers_Cons split: sum.splits result.splits)
qed

lemma generateCertificateKey_Ok:
  assumes "generateCertificateKey rt Sum256 reader = Some (Ok encoded)"
  shows "\<exists>key. randBytes rt 32 reader = Some (Ok key) \<and>
           encoded = hex_EncodeToString (slice32 (Sum256 (map of_char key)))"
  using assms by (auto simp: generateCertificateKey_def and_then_Ok Let_def bytes_of_string_def)

lemma CreateEncryptionToken_Ok:
  assumes "CreateEncryptionToken rt reader = Ok str"
  shows "\<exists>encryptionKey. length encryptionKey = 32 \<and> delivers reader 0 encryptionKey \<and>
           str = base64_EncodeToString encryptionKey"
proof -
  from assms obtain k where k: "rand_Read reader 0 32 = Ok k" "str = base64_EncodeToString k"
    by (auto simp: CreateEncryptionToken_def split: result.splits)
  from rand_Read_Ok [OF k(1)] k(2) show ?thesis by blast
qed

lemma rand_Read_delivers:
  "delivers reader p bs \<Longrightarrow> rand_Read reader p (length bs) = Ok bs"
proof (induction bs arbitrary: p)
  case Nil
  then show ?case by simp
next
  case (Cons b bs)
  then show ?case by (simp add: delivers_Cons)
qed

lemma accepted_sample_bytes:
  "accepted sample_bytes =
     [0, 35, 36, 71, 251, 10, 11, 165, 77, 202, 37, 48, 187, 29, 109, 19, 44,
      214, 35, 123, 46, 217, 30, 63, 114, 31, 203, 25, 113, 23, 68, 148, 214, 73, 60, 157]"
  by (simp add: accepted_def sample_bytes_def maxByteValue_def)

lemma randBytes_sample:
  "randBytes sample_runtime 6 (reader_of sample_bytes) = Some (Ok ''0z0zza'')"
  "randBytes sample_runtime 16 (reader_of sample_bytes) = Some (Ok ''0z0zzabl5m1c7t1j'')"
  "randBytes sample_runtime 32 (reader_of sample_bytes) = Some (Ok ''0z0zzabl5m1c7t1j8yzfa1ur6vnp5nw4'')"
  using randBytes_delivers [of 6 sample_runtime "reader_of sample_bytes" sample_bytes]
    randBytes_delivers [of 16 sample_runtime "reader_of sample_bytes" sample_bytes]
    randBytes_delivers [of 32 sample_runtime "reader_of sample_bytes" sample_bytes]
  by (simp_all add: delivers_reader_of accepted_sample_bytes tokenChar_def
      validBootstrapTokenChars_def sample_runtime_def)

lemma CreateEncryptionToken_sample:
  "CreateEncryptionToken sample_runtime (reader_of sample_bytes) = Ok ''AP8jJP1H+woLpU3K/CUwux1tEyz+1iN7LtkeP3Ifyxk=''"
proof -
  have "delivers (reader_of sample_bytes) 0 (take 32 sample_bytes @ drop 32 sample_bytes)"
    by (simp add: delivers_reader_of)
  then have "delivers (reader_of sample_bytes) 0 (take 32 sample_bytes)"
    unfolding delivers_append by simp
  then have "rand_Read (reader_of sample_bytes) 0 (length (take 32 sample_bytes)) = Ok (take 32 sample_bytes)"
    by (rule rand_Read_delivers)
  moreover have len: "length (take 32 sample_bytes) = 32"
    by (simp add: sample_bytes_def)
  ultimately have rd: "rand_Read (reader_of sample_bytes) 0 32 = Ok (take 32 sample_bytes)"
    by (simp only:)
  have enc: "base64_EncodeToString (take 32 sample_bytes) =
      ''AP8jJP1H+woLpU3K/CUwux1tEyz+1iN7LtkeP3Ifyxk=''"
    by (simp add: sample_bytes_def sextet_def encodeStd_def)
  have mk: "make_bytes sample_runtime 32 = Ok (replicate 32 (CHR 0x00))"
    by (simp add: make_bytes_def sample_runtime_def)
  show ?thesis
    by (simp add: CreateEncryptionToken_def mk rd enc)
qed

lemma upt_0_32: "[0..<32] = [0, 1, 2, 3, 4, 5, 6, 7, 8, 9, 10, 11, 12, 13, 14, 15, 16, 17, 18, 19, 20, 21, 22, 23, 24, 25, 26, 27, 28, 29, 30, 31]"
  by code_simp

lemma generateCertificateKey_sample:
  "generateCertificateKey sample_runtime sample_Sum256 (reader_of sample_bytes) =
     Some (Ok ''20272e353c434a51585f666d747b828990979ea5acb3bac1c8cfd6dde4ebf2f9'')"
  by (simp add: generateCertificateKey_def and_then_def randBytes_sample slice32_def upt_0_32
      bytes_of_string_def hextable_def sample_Sum256_def)

lemma To4_sample:
  "To4 [0, 0, 0, 0, 0, 0, 0, 0, 0, 0, 0xff, 0xff, 10, 0, 0, 1] = Some [10, 0, 0, 1]"
  "To4 [0xfc, 0, 0, 0, 0, 0, 0, 0, 0, 0, 0, 0, 0, 0, 0, 1] = None"
  by (simp_all add: To4_def isZeros_def)

lemma NewInput_sample:
  "NewInput sample_externals ''talos'' [''10.0.0.1''] ''1.16.0'' = Some (Ok sample_Input)"
  by (simp add: NewInput_def NewInput_defaults_def sample_externals_def ParseIP_sample_def
      To4_sample genToken_def and_then_def randBytes_sample CreateEncryptionToken_sample
      generateCertificateKey_sample sample_Input_def Input_zero_def
      DefaultIPv4PodNet_def DefaultIPv4ServiceNet_def)

lemma isIPv6_iff:
  "isIPv6 ParseIP addrs \<longleftrightarrow> (\<exists>a\<in>set addrs. \<exists>ip. ParseIP a = Some ip \<and> To4 ip = None)"
  by (induction addrs) (auto split: option.splits)

lemma NewInput_Ok:
  assumes "NewInput ext clustername masterIPs kubernetesVersion = Some (Ok input)"
  obtains loopbackIP podNet serviceNet kubeadmBootstrapToken kubeadmCertificateKey
    aescbcEncryptionSecret trustdToken
  where "NewInput_defaults (net_ParseIP ext) masterIPs = (loopbackIP, podNet, serviceNet)"
    and "genToken (go_runtime ext) 6 16 (rand_Reader ext 0) (rand_Reader ext 1) = Some (Ok kubeadmBootstrapToken)"
    and "generateCertificateKey (go_runtime ext) (sha256_Sum256 ext) (rand_Reader ext 2) = Some (Ok kubeadmCertificateKey)"
    and "CreateEncryptionToken (go_runtime ext) (rand_Reader ext 3) = Ok aescbcEncryptionSecret"
    and "genToken (go_runtime ext) 6 16 (rand_Reader ext 4) (rand_Reader ext 5) = Some (Ok trustdToken)"
    and "x509_Certs ext loopbackIP = Ok (Certs input)"
    and "MasterIPs input = masterIPs" and "PodNet input = [podNet]"
    and "ServiceNet input = [serviceNet]"
    and "BootstrapToken (KubeadmTokens input) = kubeadmBootstrapToken"
    and "CertificateKey (KubeadmTokens input) = kubeadmCertificateKey"
    and "AESCBCEncryptionSecret (KubeadmTokens input) = aescbcEncryptionSecret"
    and "Token (TrustdInfo input) = trustdToken"
proof -
  obtain loopbackIP podNet serviceNet
    where d: "NewInput_defaults (net_ParseIP ext) masterIPs = (loopbackIP, podNet, serviceNet)"
    by (cases "NewInput_defaults (net_ParseIP ext) masterIPs")
  from assms show thesis
    unfolding NewInput_def d
    by (auto simp: and_then_Ok intro!: that [OF d])
qed

section \<open>Properties of the construction of the input\<close>

text \<open>
  Claim C2, as stated, fails: with an IPv4 master first and an IPv6 master second, an IPv4
  address is present in the list and yet the IPv6 defaults are selected.
\<close>

theorem NewInput_defaults_counterexample:
  "ParseIP_sample ''10.0.0.1'' = Some [0, 0, 0, 0, 0, 0, 0, 0, 0, 0, 0xff, 0xff, 10, 0, 0, 1] \<and>
   To4 [0, 0, 0, 0, 0, 0, 0, 0, 0, 0, 0xff, 0xff, 10, 0, 0, 1] = Some [10, 0, 0, 1] \<and>
   NewInput_defaults ParseIP_sample [''10.0.0.1'', ''fc00::1''] =
     (''::1'', ''fc00:db8:10::/56'', ''fc00:db8:20::/112'')"
  by (simp add: NewInput_defaults_def ParseIP_sample_def To4_sample
      DefaultIPv6PodNet_def DefaultIPv6ServiceNet_def)

text \<open>
  Claim C2, amended. The IPv6 defaults (loopback \<^verbatim>\<open>::1\<close>, pod network
  \<^verbatim>\<open>fc00:db8:10::/56\<close>, service network \<^verbatim>\<open>fc00:db8:20::/112\<close>) are selected exactly when
  some master IP parses as an IP address that has no IPv4 form; otherwise the IPv4 defaults
  (\<^verbatim>\<open>127.0.0.1\<close>, \<^verbatim>\<open>10.244.0.0/16\<close>, \<^verbatim>\<open>10.96.0.0/12\<close>) are selected. The input that
  \<^verbatim>\<open>NewInput\<close> returns carries the selected networks, and its certificates were made
  with the selected loopback address.
\<close>

theorem NewInput_defaults_by_family:
  "NewInput_defaults ParseIP masterIPs =
     (if \<exists>a\<in>set masterIPs. \<exists>ip. ParseIP a = Some ip \<and> To4 ip = None
      then (''::1'', ''fc00:db8:10::/56'', ''fc00:db8:20::/112'')
      else (''127.0.0.1'', ''10.244.0.0/16'', ''10.96.0.0/12'')) \<and>
   (NewInput ext clustername masterIPs kubernetesVersion = Some (Ok input) \<longrightarrow>
      (\<exists>loopbackIP podNet serviceNet.
         NewInput_defaults (net_ParseIP ext) masterIPs = (loopbackIP, podNet, serviceNet) \<and>
         PodNet input = [podNet] \<and> ServiceNet input = [serviceNet] \<and>
         x509_Certs ext loopbackIP = Ok (Certs input)))"
proof (intro conjI impI)
  show "NewInput_defaults ParseIP masterIPs =
     (if \<exists>a\<in>set masterIPs. \<exists>ip. ParseIP a = Some ip \<and> To4 ip = None
      then (''::1'', ''fc00:db8:10::/56'', ''fc00:db8:20::/112'')
      else (''127.0.0.1'', ''10.244.0.0/16'', ''10.96.0.0/12''))"
    unfolding NewInput_defaults_def isIPv6_iff
    by (simp add: DefaultIPv4PodNet_def DefaultIPv4ServiceNet_def
        DefaultIPv6PodNet_def DefaultIPv6ServiceNet_def)
next
  assume "NewInput ext clustername masterIPs kubernetesVersion = Some (Ok input)"
  then show "\<exists>loopbackIP podNet serviceNet.
         NewInput_defaults (net_ParseIP ext) masterIPs = (loopbackIP, podNet, serviceNet) \<and>
         PodNet input = [podNet] \<and> ServiceNet input = [serviceNet] \<and>
         x509_Certs ext loopbackIP = Ok (Certs input)"
    by (rule NewInput_Ok) blast
qed

theorem NewInput_defaults_by_family_witness:
  "NewInput_defaults ParseIP_sample [''fc00::1''] =
     (''::1'', ''fc00:db8:10::/56'', ''fc00:db8:20::/112'') \<and>
   NewInput_defaults ParseIP_sample [''10.0.0.1''] =
     (''127.0.0.1'', ''10.244.0.0/16'', ''10.96.0.0/12'') \<and>
   NewInput_defaults ParseIP_sample [] =
     (''127.0.0.1'', ''10.244.0.0/16'', ''10.96.0.0/12'') \<and>
   PodNet sample_Input = [''10.244.0.0/16''] \<and> ServiceNet sample_Input = [''10.96.0.0/12'']"
proof -
  have "NewInput_defaults ParseIP_sample [''fc00::1''] =
     (''::1'', ''fc00:db8:10::/56'', ''fc00:db8:20::/112'')"
    using NewInput_defaults_by_family [of ParseIP_sample "[''fc00::1'']"]
    by (simp add: ParseIP_sample_def To4_sample)
  moreover have v4: "NewInput_defaults ParseIP_sample [''10.0.0.1''] =
     (''127.0.0.1'', ''10.244.0.0/16'', ''10.96.0.0/12'')"
    using NewInput_defaults_by_family [of ParseIP_sample "[''10.0.0.1'']"]
    by (simp add: ParseIP_sample_def To4_sample)
  moreover have "NewInput_defaults ParseIP_sample [] =
     (''127.0.0.1'', ''10.244.0.0/16'', ''10.96.0.0/12'')"
    using NewInput_defaults_by_family [of ParseIP_sample "[]"] by simp
  moreover have "PodNet sample_Input = [''10.244.0.0/16''] \<and> ServiceNet sample_Input = [''10.96.0.0/12'']"
    using NewInput_defaults_by_family [of ParseIP_sample "[''10.0.0.1'']" sample_externals
        "''talos''" "''1.16.0''" sample_Input] NewInput_sample v4
    by (simp add: sample_externals_def)
  ultimately show ?thesis by blast
qed

text \<open>
  Claim C7. In every input that \<^verbatim>\<open>NewInput\<close> returns, the bootstrap token and the
  trustd token are 6 and 16 characters of the 36-symbol alphabet joined by one dot, which
  is the pattern \<^verbatim>\<open>^[0-9a-z]{6}\.[0-9a-z]{16}$\<close>. The certificate key has 64
  characters of \<^verbatim>\<open>0123456789abcdef\<close>: for each of the 32 bytes of the digest, in order,
  the digit of its quotient by 16 and the digit of its remainder; the digest is taken of
  the 32 characters of the token that \<^verbatim>\<open>randBytes(32)\<close> returned. The encryption secret
  has 44 characters: for the first 32 bytes \<open>k\<close> of the entropy source, each of the ten
  groups of three bytes gives the four characters of its 6-bit digits in the standard
  base64 alphabet, the last two bytes give three characters, and the padding \<^verbatim>\<open>=\<close>
  ends it. The last three conjuncts spell out the three alphabets.
\<close>

theorem NewInput_secret_formats:
  assumes "NewInput ext clustername masterIPs kubernetesVersion = Some (Ok input)"
  shows "(\<exists>a b. BootstrapToken (KubeadmTokens input) = a @ ''.'' @ b \<and>
            length a = 6 \<and> length b = 16 \<and>
            set a \<subseteq> set validBootstrapTokenChars \<and> set b \<subseteq> set validBootstrapTokenChars) \<and>
         (\<exists>a b. Token (TrustdInfo input) = a @ ''.'' @ b \<and>
            length a = 6 \<and> length b = 16 \<and>
            set a \<subseteq> set validBootstrapTokenChars \<and> set b \<subseteq> set validBootstrapTokenChars) \<and>
         length (CertificateKey (KubeadmTokens input)) = 64 \<and>
         set (CertificateKey (KubeadmTokens input)) \<subseteq> set hextable \<and>
         (\<exists>key. randBytes (go_runtime ext) 32 (rand_Reader ext 2) = Some (Ok key) \<and>
            length key = 32 \<and> set key \<subseteq> set validBootstrapTokenChars \<and>
            (\<forall>i<32.
               CertificateKey (KubeadmTokens input) ! (2 * i) =
                 hextable ! (unat (sha256_Sum256 ext (map of_char key) i) div 16) \<and>
               CertificateKey (KubeadmTokens input) ! (2 * i + 1) =
                 hextable ! (unat (sha256_Sum256 ext (map of_char key) i) mod 16))) \<and>
         length (AESCBCEncryptionSecret (KubeadmTokens input)) = 44 \<and>
         (\<exists>k. length k = 32 \<and> (\<forall>i<32. rand_Reader ext 3 i = Inr (k ! i)) \<and>
            (\<forall>g<10.
               AESCBCEncryptionSecret (KubeadmTokens input) ! (4 * g) =
                 encodeStd ! (unat (k ! (3 * g)) div 4) \<and>
               AESCBCEncryptionSecret (KubeadmTokens input) ! (4 * g + 1) =
                 encodeStd ! (unat (k ! (3 * g)) mod 4 * 16 + unat (k ! (3 * g + 1)) div 16) \<and>
               AESCBCEncryptionSecret (KubeadmTokens input) ! (4 * g + 2) =
                 encodeStd ! (unat (k ! (3 * g + 1)) mod 16 * 4 + unat (k ! (3 * g + 2)) div 64) \<and>
               AESCBCEncryptionSecret (KubeadmTokens input) ! (4 * g + 3) =
                 encodeStd ! (unat (k ! (3 * g + 2)) mod 64)) \<and>
            AESCBCEncryptionSecret (KubeadmTokens input) ! 40 = encodeStd ! (unat (k ! 30) div 4) \<and>
            AESCBCEncryptionSecret (KubeadmTokens input) ! 41 =
              encodeStd ! (unat (k ! 30) mod 4 * 16 + unat (k ! 31) div 16) \<and>
            AESCBCEncryptionSecret (KubeadmTokens input) ! 42 =
              encodeStd ! (unat (k ! 31) mod 16 * 4) \<and>
            AESCBCEncryptionSecret (KubeadmTokens input) ! 43 = CHR ''='') \<and>
         validBootstrapTokenChars = ''0123456789abcdefghijklmnopqrstuvwxyz'' \<and>
         hextable = ''0123456789abcdef'' \<and>
         encodeStd = ''ABCDEFGHIJKLMNOPQRSTUVWXYZabcdefghijklmnopqrstuvwxyz0123456789+/''"
proof -
  from assms obtain kubeadmBootstrapToken kubeadmCertificateKey aescbcEncryptionSecret trustdToken
    where b: "genToken (go_runtime ext) 6 16 (rand_Reader ext 0) (rand_Reader ext 1) = Some (Ok kubeadmBootstrapToken)"
      and c: "generateCertificateKey (go_runtime ext) (sha256_Sum256 ext) (rand_Reader ext 2) = Some (Ok kubeadmCertificateKey)"
      and e: "CreateEncryptionToken (go_runtime ext) (rand_Reader ext 3) = Ok aescbcEncryptionSecret"
      and t: "genToken (go_runtime ext) 6 16 (rand_Reader ext 4) (rand_Reader ext 5) = Some (Ok trustdToken)"
      and eqs: "BootstrapToken (KubeadmTokens input) = kubeadmBootstrapToken"
        "CertificateKey (KubeadmTokens input) = kubeadmCertificateKey"
        "AESCBCEncryptionSecret (KubeadmTokens input) = aescbcEncryptionSecret"
        "Token (TrustdInfo input) = trustdToken"
    by (rule NewInput_Ok)
  have 1: "\<exists>a b. BootstrapToken (KubeadmTokens input) = a @ ''.'' @ b \<and>
            length a = 6 \<and> length b = 16 \<and>
            set a \<subseteq> set validBootstrapTokenChars \<and> set b \<subseteq> set validBootstrapTokenChars"
    unfolding eqs using b by (rule genToken_format)
  have 2: "\<exists>a b. Token (TrustdInfo input) = a @ ''.'' @ b \<and>
            length a = 6 \<and> length b = 16 \<and>
            set a \<subseteq> set validBootstrapTokenChars \<and> set b \<subseteq> set validBootstrapTokenChars"
    unfolding eqs using t by (rule genToken_format)
  from generateCertificateKey_Ok [OF c] obtain key
    where key: "randBytes (go_runtime ext) 32 (rand_Reader ext 2) = Some (Ok key)"
      "kubeadmCertificateKey = hex_EncodeToString (slice32 (sha256_Sum256 ext (map of_char key)))"
    by blast
  from randBytes_Ok_chars [OF key(1)] have k32: "length key = 32"
    "set key \<subseteq> set validBootstrapTokenChars"
    by simp_all
  let ?d = "sha256_Sum256 ext (map of_char key)"
  have 3: "length (CertificateKey (KubeadmTokens input)) = 64"
    unfolding eqs key(2) by (simp add: length_hex_EncodeToString slice32_def)
  have 4: "set (CertificateKey (KubeadmTokens input)) \<subseteq> set hextable"
    unfolding eqs key(2) by (rule hex_EncodeToString_set)
  have 5: "\<forall>i<32.
      CertificateKey (KubeadmTokens input) ! (2 * i) = hextable ! (unat (?d i) div 16) \<and>
      CertificateKey (KubeadmTokens input) ! (2 * i + 1) = hextable ! (unat (?d i) mod 16)"
  proof (intro allI impI)
    fix i :: nat assume i: "i < 32"
    then have "i < length (slice32 ?d)" and "slice32 ?d ! i = ?d i"
      by (simp_all add: slice32_def)
    with hex_EncodeToString_nth [of i "slice32 ?d"]
    show "CertificateKey (KubeadmTokens input) ! (2 * i) = hextable ! (unat (?d i) div 16) \<and>
      CertificateKey (KubeadmTokens input) ! (2 * i + 1) = hextable ! (unat (?d i) mod 16)"
      unfolding eqs key(2) by simp
  qed
  from CreateEncryptionToken_Ok [OF e] obtain k
    where ek: "length k = 32" "delivers (rand_Reader ext 3) 0 k"
      "aescbcEncryptionSecret = base64_EncodeToString k"
    by blast
  have 6: "length (AESCBCEncryptionSecret (KubeadmTokens input)) = 44"
    unfolding eqs ek(3) by (simp add: length_base64_EncodeToString ek(1))
  from ek(1,2) have 7: "\<forall>i<32. rand_Reader ext 3 i = Inr (k ! i)"
    by (simp add: delivers_iff)
  have 8: "\<forall>g<10.
      AESCBCEncryptionSecret (KubeadmTokens input) ! (4 * g) =
        encodeStd ! (unat (k ! (3 * g)) div 4) \<and>
      AESCBCEncryptionSecret (KubeadmTokens input) ! (4 * g + 1) =
        encodeStd ! (unat (k ! (3 * g)) mod 4 * 16 + unat (k ! (3 * g + 1)) div 16) \<and>
      AESCBCEncryptionSecret (KubeadmTokens input) ! (4 * g + 2) =
        encodeStd ! (unat (k ! (3 * g + 1)) mod 16 * 4 + unat (k ! (3 * g + 2)) div 64) \<and>
      AESCBCEncryptionSecret (KubeadmTokens input) ! (4 * g + 3) =
        encodeStd ! (unat (k ! (3 * g + 2)) mod 64)"
  proof (intro allI impI)
    fix g :: nat assume "g < 10"
    with ek(1) have "3 * g + 3 \<le> length k" by simp
    then show "AESCBCEncryptionSecret (KubeadmTokens input) ! (4 * g) =
        encodeStd ! (unat (k ! (3 * g)) div 4) \<and>
      AESCBCEncryptionSecret (KubeadmTokens input) ! (4 * g + 1) =
        encodeStd ! (unat (k ! (3 * g)) mod 4 * 16 + unat (k ! (3 * g + 1)) div 16) \<and>
      AESCBCEncryptionSecret (KubeadmTokens input) ! (4 * g + 2) =
        encodeStd ! (unat (k ! (3 * g + 1)) mod 16 * 4 + unat (k ! (3 * g + 2)) div 64) \<and>
      AESCBCEncryptionSecret (KubeadmTokens input) ! (4 * g + 3) =
        encodeStd ! (unat (k ! (3 * g + 2)) mod 64)"
      unfolding eqs ek(3) by (rule base64_group)
  qed
  from ek(1) have "length k = 3 * 10 + 2" by simp
  from base64_last2 [OF this]
  have 9: "AESCBCEncryptionSecret (KubeadmTokens input) ! 40 = encodeStd ! (unat (k ! 30) div 4) \<and>
      AESCBCEncryptionSecret (KubeadmTokens input) ! 41 =
        encodeStd ! (unat (k ! 30) mod 4 * 16 + unat (k ! 31) div 16) \<and>
      AESCBCEncryptionSecret (KubeadmTokens input) ! 42 = encodeStd ! (unat (k ! 31) mod 16 * 4) \<and>
      AESCBCEncryptionSecret (KubeadmTokens input) ! 43 = CHR ''=''"
    unfolding eqs ek(3) by simp
  have 10: "validBootstrapTokenChars = ''0123456789abcdefghijklmnopqrstuvwxyz''"
    "hextable = ''0123456789abcdef''"
    "encodeStd = ''ABCDEFGHIJKLMNOPQRSTUVWXYZabcdefghijklmnopqrstuvwxyz0123456789+/''"
    by (simp_all add: validBootstrapTokenChars_def hextable_def encodeStd_def)
  from key(1) k32 5 have 11: "\<exists>key. randBytes (go_runtime ext) 32 (rand_Reader ext 2) = Some (Ok key) \<and>
      length key = 32 \<and> set key \<subseteq> set validBootstrapTokenChars \<and>
      (\<forall>i<32.
         CertificateKey (KubeadmTokens input) ! (2 * i) =
           hextable ! (unat (sha256_Sum256 ext (map of_char key) i) div 16) \<and>
         CertificateKey (KubeadmTokens input) ! (2 * i + 1) =
           hextable ! (unat (sha256_Sum256 ext (map of_char key) i) mod 16))"
    by blast
  from ek(1) 7 8 9 have 12: "\<exists>k. length k = 32 \<and> (\<forall>i<32. rand_Reader ext 3 i = Inr (k ! i)) \<and>
      (\<forall>g<10.
         AESCBCEncryptionSecret (KubeadmTokens input) ! (4 * g) =
           encodeStd ! (unat (k ! (3 * g)) div 4) \<and>
         AESCBCEncryptionSecret (KubeadmTokens input) ! (4 * g + 1) =
           encodeStd ! (unat (k ! (3 * g)) mod 4 * 16 + unat (k ! (3 * g + 1)) div 16) \<and>
         AESCBCEncryptionSecret (KubeadmTokens input) ! (4 * g + 2) =
           encodeStd ! (unat (k ! (3 * g + 1)) mod 16 * 4 + unat (k ! (3 * g + 2)) div 64) \<and>
         AESCBCEncryptionSecret (KubeadmTokens input) ! (4 * g + 3) =
           encodeStd ! (unat (k ! (3 * g + 2)) mod 64)) \<and>
      AESCBCEncryptionSecret (KubeadmTokens input) ! 40 = encodeStd ! (unat (k ! 30) div 4) \<and>
      AESCBCEncryptionSecret (KubeadmTokens input) ! 41 =
        encodeStd ! (unat (k ! 30) mod 4 * 16 + unat (k ! 31) div 16) \<and>
      AESCBCEncryptionSecret (KubeadmTokens input) ! 42 =
        encodeStd ! (unat (k ! 31) mod 16 * 4) \<and>
      AESCBCEncryptionSecret (KubeadmTokens input) ! 43 = CHR ''=''"
    by blast
  from 1 2 3 4 11 6 12 10 show ?thesis by (intro conjI)
qed

theorem NewInput_secret_formats_witness:
  "NewInput sample_externals ''talos'' [''10.0.0.1''] ''1.16.0'' = Some (Ok sample_Input) \<and>
   BootstrapToken (KubeadmTokens sample_Input) = ''0z0zza.0z0zzabl5m1c7t1j'' \<and>
   Token (TrustdInfo sample_Input) = ''0z0zza.0z0zzabl5m1c7t1j'' \<and>
   CertificateKey (KubeadmTokens sample_Input) =
     ''20272e353c434a51585f666d747b828990979ea5acb3bac1c8cfd6dde4ebf2f9'' \<and>
   AESCBCEncryptionSecret (KubeadmTokens sample_Input) =
     ''AP8jJP1H+woLpU3K/CUwux1tEyz+1iN7LtkeP3Ifyxk='' \<and>
   length (CertificateKey (KubeadmTokens sample_Input)) = 64 \<and>
   length (AESCBCEncryptionSecret (KubeadmTokens sample_Input)) = 44 \<and>
   encodeStd = ''ABCDEFGHIJKLMNOPQRSTUVWXYZabcdefghijklmnopqrstuvwxyz0123456789+/''"
proof -
  note inst = NewInput_secret_formats [OF NewInput_sample]
  from inst have "length (CertificateKey (KubeadmTokens sample_Input)) = 64"
    "length (AESCBCEncryptionSecret (KubeadmTokens sample_Input)) = 44"
    "encodeStd = ''ABCDEFGHIJKLMNOPQRSTUVWXYZabcdefghijklmnopqrstuvwxyz0123456789+/''"
    by blast+
  then show ?thesis
    using NewInput_sample by (simp add: sample_Input_def Input_zero_def)
qed

section \<open>Properties of the compliance writers\<close>

text \<open>
  The encryption configuration is written only when \<^verbatim>\<open>os.Stat\<close> reports its path as
  missing: an existing file is left as it is, and so is the file system when
  \<^verbatim>\<open>os.Stat\<close> fails for another reason (the call then returns no error); a missing file
  is created with the rendered template and the permission bits 0400. The audit policy is
  created in the same way when it is missing, and the error of a failed creation is
  returned.
\<close>

lemma WriteEncryptionConfigToDisk_existing:
  "stat_error fs EncryptionConfigPath = None \<Longrightarrow> files fs EncryptionConfigPath = Some f \<Longrightarrow>
   WriteEncryptionConfigToDisk EncryptionConfigPath aescbcEncryptionSecret fs = (None, fs)"
  by (simp add: WriteEncryptionConfigToDisk_def os_Stat_def os_IsNotExist_def)

lemma WriteEncryptionConfigToDisk_missing:
  "stat_error fs EncryptionConfigPath = None \<Longrightarrow> files fs EncryptionConfigPath = None \<Longrightarrow>
   create_error fs EncryptionConfigPath = None \<Longrightarrow>
   WriteEncryptionConfigToDisk EncryptionConfigPath aescbcEncryptionSecret fs =
     (None, fs\<lparr>files := (files fs)(EncryptionConfigPath \<mapsto>
        \<lparr>contents = template_Execute encryptionConfig aescbcEncryptionSecret, mode = 0x100\<rparr>)\<rparr>)"
  by (simp add: WriteEncryptionConfigToDisk_def os_Stat_def os_IsNotExist_def ioutil_WriteFile_def)

lemma WriteEncryptionConfigToDisk_stat_fails:
  "stat_error fs EncryptionConfigPath = Some err \<Longrightarrow> err \<noteq> ErrNotExist \<Longrightarrow>
   WriteEncryptionConfigToDisk EncryptionConfigPath aescbcEncryptionSecret fs = (None, fs)"
  by (simp add: WriteEncryptionConfigToDisk_def os_Stat_def os_IsNotExist_def)

lemma WriteAuditPolicyToDisk_missing:
  "files fs AuditPolicyPath = None \<Longrightarrow> create_error fs AuditPolicyPath = None \<Longrightarrow>
   WriteAuditPolicyToDisk AuditPolicyPath fs =
     (None, fs\<lparr>files := (files fs)(AuditPolicyPath \<mapsto> \<lparr>contents = auditPolicy, mode = 0x100\<rparr>)\<rparr>)"
  by (simp add: WriteAuditPolicyToDisk_def ioutil_WriteFile_def)

lemma WriteAuditPolicyToDisk_cannot_create:
  "files fs AuditPolicyPath = None \<Longrightarrow> create_error fs AuditPolicyPath = Some err \<Longrightarrow>
   WriteAuditPolicyToDisk AuditPolicyPath fs = (Some err, fs)"
  by (simp add: WriteAuditPolicyToDisk_def ioutil_WriteFile_def)

text \<open>
  Claim C5 does not hold of \<^verbatim>\<open>WriteAuditPolicyToDisk\<close>, which lacks the check that
  \<^verbatim>\<open>WriteEncryptionConfigToDisk\<close> makes. When the audit-policy file exists with other
  contents and the process is the superuser, the call replaces the contents. When the
  file exists and the process is not the superuser, the call fails on the read-only file,
  and \<^verbatim>\<open>EnforceCommonMasterRequirements\<close> returns that error.
\<close>

theorem WriteAuditPolicyToDisk_existing_file:
  "files (snd (WriteAuditPolicyToDisk ''/etc/kubernetes/audit-policy.yaml''
      (fs_with_audit_policy ''/etc/kubernetes/audit-policy.yaml'' ''rules: []'' True)))
      ''/etc/kubernetes/audit-policy.yaml'' =
     Some \<lparr>contents = auditPolicy, mode = 0x100\<rparr> \<and>
   auditPolicy \<noteq> ''rules: []'' \<and>
   EnforceCommonMasterRequirements ''/etc/kubernetes/audit-policy.yaml''
      ''/etc/kubernetes/encryptionconfig.yaml'' ''c2VjcmV0''
      (fs_with_audit_policy ''/etc/kubernetes/audit-policy.yaml'' auditPolicy False) =
     (Some ErrPermission, fs_with_audit_policy ''/etc/kubernetes/audit-policy.yaml'' auditPolicy False)"
  by (simp add: WriteAuditPolicyToDisk_def ioutil_WriteFile_def fs_with_audit_policy_def
      EnforceCommonMasterRequirements_def auditPolicy_def)

section \<open>Known answers of the encoders\<close>

lemma base64_EncodeToString_vectors:
  "base64_EncodeToString (bytes_of_string ''f'') = ''Zg==''"
  "base64_EncodeToString (bytes_of_string ''fo'') = ''Zm8=''"
  "base64_EncodeToString (bytes_of_string ''foo'') = ''Zm9v''"
  "base64_EncodeToString (bytes_of_string ''foobar'') = ''Zm9vYmFy''"
  by (simp_all add: bytes_of_string_def sextet_def encodeStd_def)

lemma hex_EncodeToString_vector:
  "hex_EncodeToString [0x00, 0x1a, 0xb2, 0xff] = ''001ab2ff''"
  by (simp add: hextable_def)

end
